theory Spec2Isabelle
  imports Complex_Main "HOL-Library.AList"
begin

section \<open>Values of the menu conversion script\<close>

text \<open>
  The script \<^verbatim>\<open>convert_menu.py\<close> reads Hugo content files, parses their YAML front
  matter, validates each record and maps it to one record per point-of-sale system.
  Records are Python dictionaries whose values are whatever \<^verbatim>\<open>yaml.safe_load\<close>
  produced, so the values are modelled by a datatype of YAML values. Dictionaries are
  association lists in insertion order with string keys; a lookup is \<open>map_of\<close> and an
  assignment \<^verbatim>\<open>d[k] = v\<close> is \<open>AList.update\<close>, which replaces the value of a key in
  place or appends a new entry, as a Python dictionary does.

  A float is \<open>Finite r\<close>, which stands for the binary64 number nearest to the rational
  \<open>r\<close>, or one of the special values: \<open>Infinity True\<close> is positive infinity,
  \<open>Infinity False\<close> negative. In a loaded YAML value \<open>r\<close> is the exact value of the float.
  \<^verbatim>\<open>float\<close> on a text yields the exact decimal value of the text, or an infinity when
  that value is beyond the binary64 range; the rounding inside the range is not carried
  out. Strings are ASCII text. The YAML kinds timestamp, binary and set are left out, and
  a dictionary is represented by its entries with string keys: another key never equals
  a field name, a level name or a slug, which are the only keys looked up.
\<close>

datatype pyfloat = Finite rat | Infinity bool | NotANumber

datatype yval =
    YNull
  | YBool bool
  | YInt int
  | YFloat pyfloat
  | YStr string
  | YSeq "yval list"
  | YMap "(string \<times> yval) list"

type_synonym item = "(string \<times> yval) list"

type_synonym path = "string list"

datatype py_error =
    KeyError string
  | TypeError
  | ValueError
  | AttributeError
  | YAMLError
  | OSError

datatype log_event =
    MissingField string yval
  | InvalidPrice yval "yval option"
  | YamlParseError path
  | ErrorProcessing path py_error
  | FoundItems nat
  | LoadedMapping
  | MappingNotFound
  | LoadedMenuData
  | Starting
  | NoMenuItems
  | SavedPosData path
  | SavedSystemData string path
  | GeneratedReport path
  | Completed

subsection \<open>Truthiness and \<^verbatim>\<open>str\<close>\<close>

text \<open>Python's truth value of a loaded YAML value, as \<^verbatim>\<open>not item_data[field]\<close> tests it.\<close>

fun truthy :: "yval \<Rightarrow> bool" where
  "truthy YNull = False"
| "truthy (YBool b) = b"
| "truthy (YInt i) = (i \<noteq> 0)"
| "truthy (YFloat f) = (f \<noteq> Finite 0)"
| "truthy (YStr s) = (s \<noteq> [])"
| "truthy (YSeq xs) = (xs \<noteq> [])"
| "truthy (YMap d) = (d \<noteq> [])"

definition digit_char :: "nat \<Rightarrow> char" where
  "digit_char d = ''0123456789'' ! d"

fun str_nat :: "nat \<Rightarrow> string" where
  "str_nat n = (if n < 10 then [digit_char n] else str_nat (n div 10) @ [digit_char (n mod 10)])"

declare str_nat.simps [simp del]

definition str_int :: "int \<Rightarrow> string" where
  "str_int i = (if i < 0 then CHR ''-'' # str_nat (nat (- i)) else str_nat (nat i))"

text \<open>
  \<^verbatim>\<open>str(x)\<close>. For a string it is the string itself; for \<^verbatim>\<open>None\<close>, booleans and integers
  it is written out. For floats, lists and dictionaries \<^verbatim>\<open>str\<close> is Python's built-in
  \<^verbatim>\<open>repr\<close>, which is a parameter of the model.
\<close>

fun py_str :: "(yval \<Rightarrow> string) \<Rightarrow> yval \<Rightarrow> string" where
  "py_str repr YNull = ''None''"
| "py_str repr (YBool b) = (if b then ''True'' else ''False'')"
| "py_str repr (YInt i) = str_int i"
| "py_str repr (YStr s) = s"
| "py_str repr v = repr v"

text \<open>\<^verbatim>\<open>s.replace(c, '')\<close> for a one-character \<^verbatim>\<open>c\<close>.\<close>

definition remove_char :: "char \<Rightarrow> string \<Rightarrow> string" where
  "remove_char c s = filter (\<lambda>x. x \<noteq> c) s"

subsection \<open>\<^verbatim>\<open>float(s)\<close> on a string\<close>

text \<open>
  CPython's \<^verbatim>\<open>float\<close> on a string: an underscore may stand only between two digits and
  is dropped; surrounding whitespace (space, tab, line feed, vertical tab, form feed,
  carriage return) is dropped; what is left is an optional sign and then \<^verbatim>\<open>inf\<close>,
  \<^verbatim>\<open>infinity\<close> or \<^verbatim>\<open>nan\<close> in any letter case, or a decimal number with at least one
  digit, an optional point and an optional exponent. Anything else raises
  \<^verbatim>\<open>ValueError\<close>, which is the result \<open>None\<close>. A value of magnitude \<open>2^1024 - 2^970\<close> or
  more rounds to an infinity. \<^verbatim>\<open>str.strip\<close> drops the same whitespace and also the four
  separator characters \<^verbatim>\<open>0x1C\<close> to \<^verbatim>\<open>0x1F\<close>.
\<close>

definition is_digit :: "char \<Rightarrow> bool" where
  "is_digit c = (c \<in> set ''0123456789'')"

definition digit_val :: "char \<Rightarrow> nat" where
  "digit_val c = (case map_of (zip ''0123456789'' [0, 1, 2, 3, 4, 5, 6, 7, 8, 9]) c of
                    Some d \<Rightarrow> d | None \<Rightarrow> 0)"

definition py_isspace :: "char \<Rightarrow> bool" where
  "py_isspace c = ((of_char c :: nat) \<in> {9, 10, 11, 12, 13, 28, 29, 30, 31, 32})"

definition py_strip :: "string \<Rightarrow> string" where
  "py_strip s = rev (dropWhile py_isspace (rev (dropWhile py_isspace s)))"

definition float_isspace :: "char \<Rightarrow> bool" where
  "float_isspace c = ((of_char c :: nat) \<in> {9, 10, 11, 12, 13, 32})"

definition float_strip :: "string \<Rightarrow> string" where
  "float_strip s = rev (dropWhile float_isspace (rev (dropWhile float_isspace s)))"

definition float_overflow :: rat where
  "float_overflow = 2 ^ 1024 - 2 ^ 970"

definition round_float :: "rat \<Rightarrow> pyfloat" where
  "round_float r = (if float_overflow \<le> \<bar>r\<bar> then Infinity (0 < r) else Finite r)"

definition to_lower :: "char \<Rightarrow> char" where
  "to_lower c = (case map_of (zip ''ABCDEFGHIJKLMNOPQRSTUVWXYZ'' ''abcdefghijklmnopqrstuvwxyz'') c of
                   Some l \<Rightarrow> l | None \<Rightarrow> c)"

fun underscores_ok :: "char option \<Rightarrow> string \<Rightarrow> bool" where
  "underscores_ok prev [] = (prev \<noteq> Some CHR ''_'')"
| "underscores_ok prev (c # cs) =
     (if c = CHR ''_'' then
        (case prev of Some p \<Rightarrow> is_digit p \<and> underscores_ok (Some c) cs | None \<Rightarrow> False)
      else if prev = Some CHR ''_'' \<and> \<not> is_digit c then False
      else underscores_ok (Some c) cs)"

fun digits_val :: "nat \<Rightarrow> string \<Rightarrow> nat" where
  "digits_val acc [] = acc"
| "digits_val acc (c # cs) = digits_val (10 * acc + digit_val c) cs"

definition split_sign :: "string \<Rightarrow> bool \<times> string" where
  "split_sign s = (case s of
      c # cs \<Rightarrow> if c = CHR ''-'' then (True, cs) else if c = CHR ''+'' then (False, cs) else (False, s)
    | [] \<Rightarrow> (False, s))"

text \<open>The exponent part: empty, or \<^verbatim>\<open>e\<close>/\<^verbatim>\<open>E\<close>, an optional sign and at least one digit.\<close>

definition parse_exponent :: "string \<Rightarrow> int option" where
  "parse_exponent s = (case s of
      [] \<Rightarrow> Some 0
    | c # cs \<Rightarrow>
        if c = CHR ''e'' \<or> c = CHR ''E'' then
          (case split_sign cs of (neg, ds) \<Rightarrow>
             if ds \<noteq> [] \<and> list_all is_digit ds
             then Some (if neg then - int (digits_val 0 ds) else int (digits_val 0 ds))
             else None)
        else None)"

definition scale10 :: "rat \<Rightarrow> int \<Rightarrow> rat" where
  "scale10 m e = (if 0 \<le> e then m * 10 ^ nat e else m / 10 ^ nat (- e))"

definition parse_decimal :: "string \<Rightarrow> rat option" where
  "parse_decimal s =
     (let ip = takeWhile is_digit s;
          r1 = dropWhile is_digit s;
          has_point = (r1 \<noteq> [] \<and> hd r1 = CHR ''.'');
          fp = (if has_point then takeWhile is_digit (tl r1) else []);
          r2 = (if has_point then dropWhile is_digit (tl r1) else r1)
      in if ip = [] \<and> fp = [] then None
         else (case parse_exponent r2 of
                 None \<Rightarrow> None
               | Some e \<Rightarrow> Some (scale10 (of_nat (digits_val 0 (ip @ fp))) (e - int (length fp)))))"

definition py_float :: "string \<Rightarrow> pyfloat option" where
  "py_float s =
     (if \<not> underscores_ok None s then None
      else (case split_sign (float_strip (remove_char CHR ''_'' s)) of (neg, body) \<Rightarrow>
        let low = map to_lower body in
        if low = ''inf'' \<or> low = ''infinity'' then Some (Infinity (\<not> neg))
        else if low = ''nan'' then Some NotANumber
        else (case parse_decimal body of
                None \<Rightarrow> None
              | Some m \<Rightarrow> Some (round_float (if neg then - m else m)))))"

section \<open>The validator\<close>

text \<open>
  \<^verbatim>\<open>validate_menu_item\<close> returns \<^verbatim>\<open>False\<close> after logging one warning, or \<^verbatim>\<open>True\<close> after
  storing \<^verbatim>\<open>price_numeric\<close> in the record. The model returns the warning on the left
  for \<^verbatim>\<open>False\<close> and the updated record on the right for \<^verbatim>\<open>True\<close>. After the loop
  over the required fields the lookup \<^verbatim>\<open>item_data['price']\<close> cannot fail, so the \<open>None\<close>
  branch of that lookup is never taken. \<^verbatim>\<open>str\<close> raises nothing on a loaded value, so of the
  two exceptions caught only the \<^verbatim>\<open>ValueError\<close> of \<^verbatim>\<open>float\<close> can occur.
\<close>

definition field_missing :: "item \<Rightarrow> string \<Rightarrow> bool" where
  "field_missing item_data field =
     (case map_of item_data field of None \<Rightarrow> True | Some v \<Rightarrow> \<not> truthy v)"

text \<open>The loop over \<^verbatim>\<open>required_fields\<close>: the first field that is absent or falsy.\<close>

fun first_missing :: "item \<Rightarrow> string list \<Rightarrow> string option" where
  "first_missing item_data [] = None"
| "first_missing item_data (field # fields) =
     (if field_missing item_data field then Some field else first_missing item_data fields)"

definition required_fields :: "string list" where
  "required_fields = [''title'', ''price'']"

definition slug_or_unknown :: "item \<Rightarrow> yval" where
  "slug_or_unknown item_data =
     (case map_of item_data ''slug'' of Some s \<Rightarrow> s | None \<Rightarrow> YStr ''unknown'')"

definition strip_price :: "(yval \<Rightarrow> string) \<Rightarrow> yval \<Rightarrow> string" where
  "strip_price repr p = remove_char CHR '','' (remove_char CHR ''$'' (py_str repr p))"

definition validate_menu_item :: "(yval \<Rightarrow> string) \<Rightarrow> item \<Rightarrow> log_event + item" where
  "validate_menu_item repr item_data =
     (case first_missing item_data required_fields of
        Some field \<Rightarrow> Inl (MissingField field (slug_or_unknown item_data))
      | None \<Rightarrow>
          (case map_of item_data ''price'' of
             None \<Rightarrow> Inl (MissingField ''price'' (slug_or_unknown item_data))
           | Some p \<Rightarrow>
               (case py_float (strip_price repr p) of
                  None \<Rightarrow> Inl (InvalidPrice (slug_or_unknown item_data) (map_of item_data ''price''))
                | Some price \<Rightarrow> Inr (AList.update ''price_numeric'' (YFloat price) item_data))))"

section \<open>Paths\<close>

text \<open>
  A \<^verbatim>\<open>pathlib\<close> path is the list of its parts. \<^verbatim>\<open>name\<close> is the last part, \<^verbatim>\<open>suffix\<close>
  starts at the last dot of the name unless that dot is the first or the last character,
  and \<^verbatim>\<open>stem\<close> is the name without the suffix. \<^verbatim>\<open>relative_to\<close> removes the other path's
  parts from the front and raises \<^verbatim>\<open>ValueError\<close> when they are not a prefix.
\<close>

definition starts_with :: "string \<Rightarrow> string \<Rightarrow> bool" where
  "starts_with pre s = (take (length pre) s = pre)"

definition path_name :: "path \<Rightarrow> string" where
  "path_name p = (if p = [] then [] else last p)"

definition rfind :: "char \<Rightarrow> string \<Rightarrow> nat option" where
  "rfind c s = (if c \<in> set s
                then Some (length s - 1 - length (takeWhile (\<lambda>x. x \<noteq> c) (rev s)))
                else None)"

definition path_suffix :: "path \<Rightarrow> string" where
  "path_suffix p =
     (let name = path_name p in
      case rfind CHR ''.'' name of
        Some i \<Rightarrow> if 0 < i \<and> i + 1 < length name then drop i name else []
      | None \<Rightarrow> [])"

definition path_stem :: "path \<Rightarrow> string" where
  "path_stem p =
     (let name = path_name p in
      case rfind CHR ''.'' name of
        Some i \<Rightarrow> if 0 < i \<and> i + 1 < length name then take i name else name
      | None \<Rightarrow> name)"

fun join_with :: "string \<Rightarrow> string list \<Rightarrow> string" where
  "join_with sep [] = []"
| "join_with sep [x] = x"
| "join_with sep (x # y # ys) = x @ sep @ join_with sep (y # ys)"

text \<open>\<^verbatim>\<open>str(path)\<close>: the parts joined by a slash, after the root part of an absolute path.\<close>

definition path_str :: "path \<Rightarrow> string" where
  "path_str p = (case p of
      [] \<Rightarrow> ''.''
    | r # rest \<Rightarrow> if r = ''/'' then ''/'' @ join_with ''/'' rest else join_with ''/'' p)"

definition relative_to :: "path \<Rightarrow> path \<Rightarrow> py_error + path" where
  "relative_to p other =
     (if take (length other) p = other then Inr (drop (length other) p) else Inl ValueError)"

definition extract_category :: "path \<Rightarrow> path \<Rightarrow> py_error + string" where
  "extract_category content_dir file_path =
     (case relative_to file_path content_dir of
        Inl e \<Rightarrow> Inl e
      | Inr relative_path \<Rightarrow>
          Inr (if length relative_path > 1 then hd relative_path else ''uncategorized''))"

section \<open>The front-matter parser\<close>

text \<open>\<^verbatim>\<open>content.split('\n')\<close>: never empty.\<close>

fun split_lines :: "string \<Rightarrow> string list" where
  "split_lines [] = [[]]"
| "split_lines (c # cs) =
     (if c = CHR 0x0A then [] # split_lines cs
      else (case split_lines cs of l # ls \<Rightarrow> (c # l) # ls | [] \<Rightarrow> [[c]]))"

definition is_delimiter :: "string \<Rightarrow> bool" where
  "is_delimiter line = starts_with ''---'' line"

text \<open>
  The loop over \<^verbatim>\<open>enumerate(lines)\<close>. The state is the index \<open>i\<close>, the flag
  \<^verbatim>\<open>in_front_matter\<close>, the lines collected so far and \<^verbatim>\<open>content_start\<close>; the result is
  the collected lines and \<^verbatim>\<open>content_start\<close>. The second delimiter line breaks the loop.
\<close>

fun front_matter_loop :: "nat \<Rightarrow> bool \<Rightarrow> string list \<Rightarrow> nat \<Rightarrow> string list \<Rightarrow> string list \<times> nat" where
  "front_matter_loop i in_front_matter front_matter content_start [] = (front_matter, content_start)"
| "front_matter_loop i in_front_matter front_matter content_start (line # rest) =
     (if is_delimiter line then
        (if \<not> in_front_matter then front_matter_loop (i + 1) True front_matter content_start rest
         else (front_matter, i + 1))
      else if in_front_matter then
        front_matter_loop (i + 1) in_front_matter (front_matter @ [line]) content_start rest
      else front_matter_loop (i + 1) in_front_matter front_matter content_start rest)"

text \<open>
  \<^verbatim>\<open>parse_menu_item\<close>. The YAML loader is a parameter: it returns the loaded value or the
  exception it raised. Only \<^verbatim>\<open>yaml.YAMLError\<close> is caught; an assignment
  \<^verbatim>\<open>item_data['slug'] = ...\<close> on a loaded value that is not a dictionary raises
  \<^verbatim>\<open>TypeError\<close>, and \<^verbatim>\<open>relative_to\<close> may raise \<^verbatim>\<open>ValueError\<close>; both leave the function.
  The result carries the messages logged and the item, \<open>None\<close> for "no item".
\<close>

definition parse_menu_item ::
  "(yval \<Rightarrow> string) \<Rightarrow> (string \<Rightarrow> py_error + yval) \<Rightarrow> path \<Rightarrow> path \<Rightarrow> string
     \<Rightarrow> py_error + (log_event list \<times> item option)" where
  "parse_menu_item repr yaml_safe_load content_dir file_path content =
     (let lines = split_lines content in
      if lines = [] \<or> \<not> is_delimiter (hd lines) then Inr ([], None)
      else
        (case front_matter_loop 0 False [] 0 lines of (front_matter, content_start) \<Rightarrow>
           if front_matter = [] then Inr ([], None)
           else
             (case yaml_safe_load (join_with [CHR 0x0A] front_matter) of
                Inl e \<Rightarrow> if e = YAMLError then Inr ([YamlParseError file_path], None) else Inl e
              | Inr loaded \<Rightarrow>
                  (case (if truthy loaded then loaded else YMap []) of
                     YMap d0 \<Rightarrow>
                       (let d1 = AList.update ''slug'' (YStr (path_stem file_path)) d0;
                            d2 = AList.update ''file_path'' (YStr (path_str file_path)) d1
                        in case extract_category content_dir file_path of
                             Inl e \<Rightarrow> Inl e
                           | Inr category \<Rightarrow>
                               (let d3 = AList.update ''category'' (YStr category) d2;
                                    content_lines = drop content_start lines;
                                    d4 = AList.update ''content''
                                           (YStr (py_strip (join_with [CHR 0x0A] content_lines))) d3
                                in case validate_menu_item repr d4 of
                                     Inl warning \<Rightarrow> Inr ([warning], None)
                                   | Inr item_data \<Rightarrow> Inr ([], Some item_data)))
                   | _ \<Rightarrow> Inl TypeError))))"

section \<open>The content scanner\<close>

text \<open>
  \<^verbatim>\<open>scan_menu_items\<close> walks the files that \<^verbatim>\<open>rglob("*.md")\<close> yields, given here in that
  order with the outcome of reading each: its text, or the exception raised. Every
  exception inside the \<^verbatim>\<open>try\<close> is caught and logged, and the file is skipped. An
  item is stored under \<^verbatim>\<open>item_data['slug']\<close>, which is the string that the parser put
  there; the branches for a missing or non-string slug are never taken. A later file
  with the same slug replaces the earlier item.
\<close>

type_synonym menu_items = "(string \<times> item) list"

definition scan_file ::
  "(yval \<Rightarrow> string) \<Rightarrow> (string \<Rightarrow> py_error + yval) \<Rightarrow> path
     \<Rightarrow> menu_items \<times> log_event list \<Rightarrow> path \<times> (py_error + string) \<Rightarrow> menu_items \<times> log_event list" where
  "scan_file repr yaml_safe_load content_dir st entry =
     (case st of (menu_items, lg) \<Rightarrow>
      case entry of (content_file, read_result) \<Rightarrow>
        if starts_with ''_index.md'' (path_name content_file) then (menu_items, lg)
        else
          (case read_result of
             Inl e \<Rightarrow> (menu_items, lg @ [ErrorProcessing content_file e])
           | Inr content \<Rightarrow>
               (case parse_menu_item repr yaml_safe_load content_dir content_file content of
                  Inl e \<Rightarrow> (menu_items, lg @ [ErrorProcessing content_file e])
                | Inr (plog, None) \<Rightarrow> (menu_items, lg @ plog)
                | Inr (plog, Some item_data) \<Rightarrow>
                    if item_data = [] then (menu_items, lg @ plog)
                    else
                      (case map_of item_data ''slug'' of
                         Some (YStr slug) \<Rightarrow> (AList.update slug item_data menu_items, lg @ plog)
                       | Some _ \<Rightarrow> (menu_items, lg @ plog @ [ErrorProcessing content_file TypeError])
                       | None \<Rightarrow>
                           (menu_items, lg @ plog @ [ErrorProcessing content_file (KeyError ''slug'')])))))"

definition scan_menu_items ::
  "(yval \<Rightarrow> string) \<Rightarrow> (string \<Rightarrow> py_error + yval) \<Rightarrow> path
     \<Rightarrow> (path \<times> (py_error + string)) list \<Rightarrow> menu_items \<times> log_event list" where
  "scan_menu_items repr yaml_safe_load content_dir files =
     (case foldl (scan_file repr yaml_safe_load content_dir) ([], []) files of
        (menu_items, lg) \<Rightarrow> (menu_items, lg @ [FoundItems (length menu_items)]))"

section \<open>The POS transformer\<close>

text \<open>
  The mapping configuration \<^verbatim>\<open>self.pos_mapping\<close> is whatever \<^verbatim>\<open>yaml.safe_load\<close> returned
  for the mapping file, or the empty dictionary. The transformer reads it as
  \<^verbatim>\<open>pos_mapping.get('global', {})\<close>, then \<^verbatim>\<open>.get(system, {}).get('items', {})\<close>, then
  \<^verbatim>\<open>.get(slug, f"omg-sushi-{slug}")\<close>. Only a dictionary has \<^verbatim>\<open>get\<close>: on any other value
  the call raises \<^verbatim>\<open>AttributeError\<close>.
\<close>

definition py_get :: "item \<Rightarrow> string \<Rightarrow> yval \<Rightarrow> yval" where
  "py_get d k dflt = (case map_of d k of Some v \<Rightarrow> v | None \<Rightarrow> dflt)"

definition py_index :: "item \<Rightarrow> string \<Rightarrow> py_error + yval" where
  "py_index d k = (case map_of d k of Some v \<Rightarrow> Inr v | None \<Rightarrow> Inl (KeyError k))"

definition and_then :: "py_error + 'a \<Rightarrow> ('a \<Rightarrow> py_error + 'b) \<Rightarrow> py_error + 'b" where
  "and_then r f = (case r of Inl e \<Rightarrow> Inl e | Inr x \<Rightarrow> f x)"

definition dict_get :: "yval \<Rightarrow> string \<Rightarrow> yval \<Rightarrow> py_error + yval" where
  "dict_get v key dflt = (case v of
      YMap d \<Rightarrow> Inr (case map_of d key of Some x \<Rightarrow> x | None \<Rightarrow> dflt)
    | _ \<Rightarrow> Inl AttributeError)"

text \<open>\<^verbatim>\<open>global_mappings.get(system, {}).get('items', {})\<close>.\<close>

definition system_items :: "yval \<Rightarrow> string \<Rightarrow> py_error + yval" where
  "system_items global_mappings system =
     and_then (dict_get global_mappings system (YMap [])) (\<lambda>s. dict_get s ''items'' (YMap []))"

text \<open>\<^verbatim>\<open>loyverse_global.get(slug, f"omg-sushi-{slug}")\<close>, and the same for Odoo.\<close>

definition pos_id :: "yval \<Rightarrow> string \<Rightarrow> py_error + yval" where
  "pos_id system_global slug = dict_get system_global slug (YStr (''omg-sushi-'' @ slug))"

subsection \<open>Output tables\<close>

text \<open>
  An output table is a Python dictionary whose keys are the external identifiers, which
  may be any loaded value. A list or a dictionary is not hashable and raises
  \<^verbatim>\<open>TypeError\<close> as a key. Two keys are the same key when they are equal in Python:
  the same value, or numbers (booleans, integers, floats) of the same numeric value.
  An assignment to a key that is already there replaces the value and keeps the key
  that is there; otherwise it appends the entry.
\<close>

fun key_num :: "yval \<Rightarrow> rat option" where
  "key_num (YBool b) = Some (if b then 1 else 0)"
| "key_num (YInt i) = Some (of_int i)"
| "key_num (YFloat (Finite r)) = Some r"
| "key_num v = None"

definition same_key :: "yval \<Rightarrow> yval \<Rightarrow> bool" where
  "same_key a b = (a = b \<or> (key_num a \<noteq> None \<and> key_num a = key_num b))"

fun hashable :: "yval \<Rightarrow> bool" where
  "hashable (YSeq xs) = False"
| "hashable (YMap d) = False"
| "hashable v = True"

fun dict_set :: "yval \<Rightarrow> 'v \<Rightarrow> (yval \<times> 'v) list \<Rightarrow> (yval \<times> 'v) list" where
  "dict_set k v [] = [(k, v)]"
| "dict_set k v (e # t) = (if same_key (fst e) k then (fst e, v) # t else e # dict_set k v t)"

definition set_item :: "yval \<Rightarrow> 'v \<Rightarrow> (yval \<times> 'v) list \<Rightarrow> py_error + (yval \<times> 'v) list" where
  "set_item k v t = (if hashable k then Inr (dict_set k v t) else Inl TypeError)"

text \<open>\<^verbatim>\<open>table[k]\<close> for reading: the value of the entry with the same key.\<close>

definition py_lookup :: "(yval \<times> 'v) list \<Rightarrow> yval \<Rightarrow> 'v option" where
  "py_lookup t k = map_option snd (find (\<lambda>e. same_key (fst e) k) t)"

type_synonym pos_table = "(yval \<times> item) list"

record pos_items =
  loyverse :: pos_table
  odoo :: pos_table

definition loyverse_record :: "yval \<Rightarrow> string \<Rightarrow> item \<Rightarrow> py_error + item" where
  "loyverse_record loyverse_id slug item_data =
     and_then (py_index item_data ''title'') (\<lambda>title.
     and_then (py_index item_data ''price_numeric'') (\<lambda>price.
     and_then (py_index item_data ''category'') (\<lambda>category.
       Inr [(''name'', title),
            (''price'', price),
            (''description'', py_get item_data ''description'' (YStr [])),
            (''category'', category),
            (''available'', py_get item_data ''available'' (YBool True)),
            (''sku'', loyverse_id),
            (''hugo_slug'', YStr slug)])))"

definition odoo_record :: "yval \<Rightarrow> string \<Rightarrow> item \<Rightarrow> py_error + item" where
  "odoo_record odoo_id slug item_data =
     and_then (py_index item_data ''title'') (\<lambda>title.
     and_then (py_index item_data ''price_numeric'') (\<lambda>price.
     and_then (py_index item_data ''category'') (\<lambda>category.
       Inr [(''name'', title),
            (''list_price'', price),
            (''description'', py_get item_data ''description'' (YStr [])),
            (''categ_id'', category),
            (''active'', py_get item_data ''available'' (YBool True)),
            (''default_code'', odoo_id),
            (''hugo_slug'', YStr slug)])))"

text \<open>
  One pass of the loop body of \<^verbatim>\<open>convert_to_pos_format\<close>, in the order of the source:
  the lookups for Loyverse, the Loyverse record, its assignment, and then the same for
  Odoo.
\<close>

definition convert_item :: "yval \<Rightarrow> pos_items \<Rightarrow> string \<times> item \<Rightarrow> py_error + pos_items" where
  "convert_item mapping acc entry =
     (case entry of (slug, item_data) \<Rightarrow>
        and_then (dict_get mapping ''global'' (YMap [])) (\<lambda>global_mappings.
        and_then (system_items global_mappings ''loyverse'') (\<lambda>loyverse_global.
        and_then (pos_id loyverse_global slug) (\<lambda>loyverse_id.
        and_then (loyverse_record loyverse_id slug item_data) (\<lambda>lrec.
        and_then (set_item loyverse_id lrec (loyverse acc)) (\<lambda>ltable.
        and_then (system_items global_mappings ''odoo'') (\<lambda>odoo_global.
        and_then (pos_id odoo_global slug) (\<lambda>odoo_id.
        and_then (odoo_record odoo_id slug item_data) (\<lambda>orec.
        and_then (set_item odoo_id orec (odoo acc)) (\<lambda>otable.
          Inr (acc\<lparr>loyverse := ltable, odoo := otable\<rparr>)))))))))))"

fun convert_loop :: "yval \<Rightarrow> pos_items \<Rightarrow> menu_items \<Rightarrow> py_error + pos_items" where
  "convert_loop mapping acc [] = Inr acc"
| "convert_loop mapping acc (entry # rest) =
     (case convert_item mapping acc entry of
        Inl e \<Rightarrow> Inl e
      | Inr acc' \<Rightarrow> convert_loop mapping acc' rest)"

definition convert_to_pos_format :: "yval \<Rightarrow> menu_items \<Rightarrow> py_error + pos_items" where
  "convert_to_pos_format mapping menu_items =
     convert_loop mapping \<lparr>loyverse = [], odoo = []\<rparr> menu_items"

section \<open>The writer and the run\<close>

text \<open>
  The files written are recorded in order, each with what was serialised into it. The
  serialisers of PyYAML and \<^verbatim>\<open>json\<close> are not modelled: the content of a dump is the value
  dumped. Opening a file for writing raises \<^verbatim>\<open>OSError\<close> when the data directory cannot
  be written to. A result \<open>Inl e\<close> of a function is the exception that left it.
\<close>

record report_row =
  row_slug :: string
  row_title :: yval
  row_category :: yval
  row_price :: yval
  loyverse_mapped :: bool
  odoo_mapped :: bool

datatype file_content =
    YamlDump pos_items
  | JsonDump pos_items
  | YamlDumpTable pos_table
  | MappingReport path nat "report_row list"

record world =
  written :: "(path \<times> file_content) list"
  logged :: "log_event list"

record converter =
  content_dir :: path
  data_dir :: path
  menu_data :: yval
  pos_mapping :: yval

text \<open>
  What a run reads: the outcome of loading each optional configuration file (\<open>None\<close>
  when the file does not exist), the content files in the order of the directory walk,
  whether files in the data directory can be opened for writing, and the working
  directory.
\<close>

record env =
  mapping_file :: "(py_error + yval) option"
  menu_file :: "(py_error + yval) option"
  content_files :: "(path \<times> (py_error + string)) list"
  data_dir_writable :: bool
  cwd :: path

definition log_msg :: "log_event \<Rightarrow> world \<Rightarrow> world" where
  "log_msg ev w = w\<lparr>logged := logged w @ [ev]\<rparr>"

definition write_file :: "env \<Rightarrow> path \<Rightarrow> file_content \<Rightarrow> world \<Rightarrow> py_error + world" where
  "write_file e p c w =
     (if data_dir_writable e then Inr (w\<lparr>written := written w @ [(p, c)]\<rparr>) else Inl OSError)"

definition load_pos_mapping :: "env \<Rightarrow> converter \<Rightarrow> world \<Rightarrow> py_error + converter \<times> world" where
  "load_pos_mapping e self w =
     (case mapping_file e of
        None \<Rightarrow> Inr (self, log_msg MappingNotFound w)
      | Some (Inl err) \<Rightarrow> Inl err
      | Some (Inr v) \<Rightarrow>
          Inr (self\<lparr>pos_mapping := (if truthy v then v else YMap [])\<rparr>, log_msg LoadedMapping w))"

definition load_menu_data :: "env \<Rightarrow> converter \<Rightarrow> world \<Rightarrow> py_error + converter \<times> world" where
  "load_menu_data e self w =
     (case menu_file e of
        None \<Rightarrow> Inr (self, w)
      | Some (Inl err) \<Rightarrow> Inl err
      | Some (Inr v) \<Rightarrow>
          Inr (self\<lparr>menu_data := (if truthy v then v else YMap [])\<rparr>, log_msg LoadedMenuData w))"

definition save_pos_data :: "env \<Rightarrow> converter \<Rightarrow> pos_items \<Rightarrow> world \<Rightarrow> py_error + world" where
  "save_pos_data e self pos w =
     (let pos_file = data_dir self @ [''pos-menu-data.yaml''];
          json_file = data_dir self @ [''pos-menu-data.json''];
          loyverse_file = data_dir self @ [''pos-menu-loyverse.yaml''];
          odoo_file = data_dir self @ [''pos-menu-odoo.yaml'']
      in and_then (write_file e pos_file (YamlDump pos) w) (\<lambda>w1.
         and_then (write_file e json_file (JsonDump pos) (log_msg (SavedPosData pos_file) w1)) (\<lambda>w2.
         and_then (write_file e loyverse_file (YamlDumpTable (loyverse pos))
                     (log_msg (SavedPosData json_file) w2)) (\<lambda>w3.
         and_then (write_file e odoo_file (YamlDumpTable (odoo pos))
                     (log_msg (SavedSystemData ''loyverse'' loyverse_file) w3)) (\<lambda>w4.
           Inr (log_msg (SavedSystemData ''odoo'' odoo_file) w4))))))"

text \<open>The format \<^verbatim>\<open>:.2f\<close> accepts a float, an integer or a boolean.\<close>

definition format_2f :: "yval \<Rightarrow> py_error + yval" where
  "format_2f v = (case v of
      YFloat f \<Rightarrow> Inr v
    | YInt i \<Rightarrow> Inr v
    | YBool b \<Rightarrow> Inr v
    | YStr s \<Rightarrow> Inl ValueError
    | _ \<Rightarrow> Inl TypeError)"

text \<open>
  \<^verbatim>\<open>slug in v\<close>: a key of a dictionary, a substring of a string, an element of a list;
  other values are not iterable.
\<close>

fun is_substring :: "string \<Rightarrow> string \<Rightarrow> bool" where
  "is_substring s [] = (s = [])"
| "is_substring s (c # cs) = (starts_with s (c # cs) \<or> is_substring s cs)"

definition py_in :: "string \<Rightarrow> yval \<Rightarrow> py_error + bool" where
  "py_in slug v = (case v of
      YMap d \<Rightarrow> Inr (map_of d slug \<noteq> None)
    | YStr s \<Rightarrow> Inr (is_substring slug s)
    | YSeq xs \<Rightarrow> Inr (YStr slug \<in> set xs)
    | _ \<Rightarrow> Inl TypeError)"

definition report_line :: "yval \<Rightarrow> yval \<Rightarrow> string \<times> item \<Rightarrow> py_error + report_row" where
  "report_line loyverse_mappings odoo_mappings entry =
     (case entry of (slug, item_data) \<Rightarrow>
        and_then (py_in slug loyverse_mappings) (\<lambda>in_loyverse.
        and_then (py_in slug odoo_mappings) (\<lambda>in_odoo.
        and_then (py_index item_data ''title'') (\<lambda>title.
        and_then (py_index item_data ''category'') (\<lambda>category.
        and_then (py_index item_data ''price_numeric'') (\<lambda>price.
        and_then (format_2f price) (\<lambda>shown.
          Inr \<lparr>row_slug = slug, row_title = title, row_category = category, row_price = shown,
               loyverse_mapped = in_loyverse, odoo_mapped = in_odoo\<rparr>)))))))"

fun report_lines :: "yval \<Rightarrow> yval \<Rightarrow> menu_items \<Rightarrow> py_error + report_row list" where
  "report_lines loyverse_mappings odoo_mappings [] = Inr []"
| "report_lines loyverse_mappings odoo_mappings (entry # rest) =
     and_then (report_line loyverse_mappings odoo_mappings entry) (\<lambda>r.
     and_then (report_lines loyverse_mappings odoo_mappings rest) (\<lambda>rs. Inr (r # rs)))"

definition generate_mapping_report :: "env \<Rightarrow> converter \<Rightarrow> menu_items \<Rightarrow> world \<Rightarrow> py_error + world" where
  "generate_mapping_report e self menu_items w =
     (let report_file = data_dir self @ [''mapping-report.md''] in
      if \<not> data_dir_writable e then Inl OSError
      else
        and_then (dict_get (pos_mapping self) ''global'' (YMap [])) (\<lambda>global_mappings.
        and_then (system_items global_mappings ''loyverse'') (\<lambda>loyverse_mappings.
        and_then (system_items global_mappings ''odoo'') (\<lambda>odoo_mappings.
        and_then (report_lines loyverse_mappings odoo_mappings menu_items) (\<lambda>rows.
        and_then (write_file e report_file (MappingReport (cwd e) (length menu_items) rows) w) (\<lambda>w1.
          Inr (log_msg (GeneratedReport report_file) w1)))))))"

definition run_conversion ::
  "(yval \<Rightarrow> string) \<Rightarrow> (string \<Rightarrow> py_error + yval) \<Rightarrow> env \<Rightarrow> converter \<Rightarrow> world
     \<Rightarrow> py_error + converter \<times> world" where
  "run_conversion repr yaml_safe_load e self w =
     and_then (load_pos_mapping e self (log_msg Starting w)) (\<lambda>(self1, w1).
     and_then (load_menu_data e self1 w1) (\<lambda>(self2, w2).
       case scan_menu_items repr yaml_safe_load (content_dir self2) (content_files e) of
         (menu_items, scan_log) \<Rightarrow>
           let w3 = w2\<lparr>logged := logged w2 @ scan_log\<rparr> in
           if menu_items = [] then Inr (self2, log_msg NoMenuItems w3)
           else
             and_then (convert_to_pos_format (pos_mapping self2) menu_items) (\<lambda>pos.
             and_then (save_pos_data e self2 pos w3) (\<lambda>w4.
             and_then (generate_mapping_report e self2 menu_items w4) (\<lambda>w5.
               Inr (self2, log_msg Completed w5))))))"

section \<open>The validator as the specification words it\<close>



text \<open>A \<^verbatim>\<open>repr\<close> for examples that hold no float, list or dictionary.\<close>

definition no_repr :: "yval \<Rightarrow> string" where
  "no_repr v = []"

section \<open>The front-matter block\<close>

text \<open>
  What the parser collects as the block: the lines after the first line, up to the next
  delimiter line, or up to the end of the text when no delimiter line follows.
\<close>

definition collected_block :: "string \<Rightarrow> string list" where
  "collected_block content = takeWhile (\<lambda>l. \<not> is_delimiter l) (tl (split_lines content))"

text \<open>
  The block as the specification words it: the lines between the first and the second
  occurrence of the delimiter line. Without a leading delimiter line or without a second
  one there is no such block.
\<close>

definition spec_front_matter_block :: "string \<Rightarrow> string list option" where
  "spec_front_matter_block content =
     (case split_lines content of
        [] \<Rightarrow> None
      | first # rest \<Rightarrow>
          if is_delimiter first \<and> list_ex is_delimiter rest
          then Some (takeWhile (\<lambda>l. \<not> is_delimiter l) rest)
          else None)"

section \<open>Identifiers and tables of the transformer\<close>

text \<open>
  The keys that \<^verbatim>\<open>convert_to_pos_format\<close> reads with \<^verbatim>\<open>item_data[...]\<close>. Every item
  that the parser returns has them: the parser sets \<^verbatim>\<open>category\<close>, and the validator
  requires \<^verbatim>\<open>title\<close> and sets \<^verbatim>\<open>price_numeric\<close>.
\<close>

definition menu_item_fields :: "item \<Rightarrow> bool" where
  "menu_item_fields item_data =
     (map_of item_data ''title'' \<noteq> None \<and> map_of item_data ''price_numeric'' \<noteq> None \<and>
      map_of item_data ''category'' \<noteq> None)"

text \<open>
  The lookups of one pass of the loop put together: the value that the chain of
  \<^verbatim>\<open>get\<close> calls yields for the \<^verbatim>\<open>items\<close> level of a system, and the identifier that it
  yields for a slug.
\<close>

definition items_level :: "yval \<Rightarrow> string \<Rightarrow> py_error + yval" where
  "items_level mapping system =
     and_then (dict_get mapping ''global'' (YMap [])) (\<lambda>g. system_items g system)"

definition item_ident :: "yval \<Rightarrow> string \<Rightarrow> string \<Rightarrow> py_error + yval" where
  "item_ident mapping system slug = and_then (items_level mapping system) (\<lambda>t. pos_id t slug)"

text \<open>
  The mapping is well shaped for a system when that chain yields a dictionary: each of
  the levels \<^verbatim>\<open>global\<close>, the system's entry and \<^verbatim>\<open>items\<close> is absent or a dictionary, and
  the mapping itself is a dictionary.
\<close>

definition mapping_shape_ok :: "yval \<Rightarrow> string \<Rightarrow> bool" where
  "mapping_shape_ok mapping system =
     (case items_level mapping system of Inr (YMap t) \<Rightarrow> True | _ \<Rightarrow> False)"

text \<open>
  The explicit mapping entry \<^verbatim>\<open>mapping['global'][system]['items'][slug]\<close> as the
  specification words it, when every level on the way is there, and the external
  identifier that the specification gives an item: the explicit entry, or the brand
  prefix followed by the slug.
\<close>

definition explicit_entry :: "yval \<Rightarrow> string \<Rightarrow> string \<Rightarrow> yval option" where
  "explicit_entry mapping system slug =
     (case mapping of
        YMap m \<Rightarrow>
          (case map_of m ''global'' of
             Some (YMap g) \<Rightarrow>
               (case map_of g system of
                  Some (YMap s) \<Rightarrow>
                    (case map_of s ''items'' of Some (YMap t) \<Rightarrow> map_of t slug | _ \<Rightarrow> None)
                | _ \<Rightarrow> None)
           | _ \<Rightarrow> None)
      | _ \<Rightarrow> None)"

definition external_id :: "yval \<Rightarrow> string \<Rightarrow> string \<Rightarrow> yval" where
  "external_id mapping system slug =
     (case explicit_entry mapping system slug of
        Some ident \<Rightarrow> ident
      | None \<Rightarrow> YStr (''omg-sushi-'' @ slug))"

text \<open>
  A table is a proper dictionary when no two of its keys are the same key. Assigning a
  list of entries one after the other is \<open>set_items\<close>.
\<close>

fun dict_ok :: "(yval \<times> 'v) list \<Rightarrow> bool" where
  "dict_ok [] = True"
| "dict_ok (e # t) = ((\<forall>x \<in> set t. \<not> same_key (fst e) (fst x)) \<and> dict_ok t)"

fun set_items :: "(yval \<times> 'v) list \<Rightarrow> (yval \<times> 'v) list \<Rightarrow> (yval \<times> 'v) list" where
  "set_items t [] = t"
| "set_items t (e # es) = set_items (dict_set (fst e) (snd e) t) es"

text \<open>
  \<open>loyverse_row mapping e kr\<close>: the pair \<open>kr\<close> is the identifier that the loop computes
  for the menu entry \<open>e\<close>, with the Loyverse record built from it; \<open>odoo_row\<close> likewise.
\<close>

definition loyverse_row :: "yval \<Rightarrow> string \<times> item \<Rightarrow> yval \<times> item \<Rightarrow> bool" where
  "loyverse_row mapping e kr =
     (item_ident mapping ''loyverse'' (fst e) = Inr (fst kr) \<and> hashable (fst kr) \<and>
      loyverse_record (fst kr) (fst e) (snd e) = Inr (snd kr))"

definition odoo_row :: "yval \<Rightarrow> string \<times> item \<Rightarrow> yval \<times> item \<Rightarrow> bool" where
  "odoo_row mapping e kr =
     (item_ident mapping ''odoo'' (fst e) = Inr (fst kr) \<and> hashable (fst kr) \<and>
      odoo_record (fst kr) (fst e) (snd e) = Inr (snd kr))"

text \<open>
  What a table holds for a menu, given the identifier of each slug and the record of
  each item. The table is a proper dictionary; every key is the identifier of an item
  and every item's identifier is a key; the record of an item is in the table under
  its identifier unless a later item has the same identifier; and when no two items
  have the same identifier, the table has the records of the items one by one, in the
  order of the menu.
\<close>

definition holds_records ::
  "(string \<Rightarrow> yval) \<Rightarrow> (yval \<Rightarrow> string \<Rightarrow> item \<Rightarrow> py_error + item) \<Rightarrow> menu_items \<Rightarrow> pos_table \<Rightarrow> bool" where
  "holds_records ident record menu_items table =
     (dict_ok table \<and>
      (\<forall>kr \<in> set table. \<exists>e \<in> set menu_items. same_key (fst kr) (ident (fst e))) \<and>
      (\<forall>e \<in> set menu_items. \<exists>kr \<in> set table. same_key (fst kr) (ident (fst e))) \<and>
      (\<forall>pre e post.
         menu_items = pre @ e # post \<and>
         (\<forall>x \<in> set post. \<not> same_key (ident (fst x)) (ident (fst e))) \<longrightarrow>
         (\<exists>kr \<in> set table. same_key (fst kr) (ident (fst e)) \<and>
            record (ident (fst e)) (fst e) (snd e) = Inr (snd kr))) \<and>
      (dict_ok (map (\<lambda>e. (ident (fst e), snd e)) menu_items) \<longrightarrow>
         list_all2 (\<lambda>e kr. fst kr = ident (fst e) \<and>
                      record (fst kr) (fst e) (snd e) = Inr (snd kr)) menu_items table))"

text \<open>
  The transformer's claim as the specification words it: each system's table has one
  record per input item.
\<close>

definition one_record_per_item :: "menu_items \<Rightarrow> pos_items \<Rightarrow> bool" where
  "one_record_per_item menu_items pos =
     (length (loyverse pos) = length menu_items \<and> length (odoo pos) = length menu_items)"

section \<open>Example content files\<close>

text \<open>
  The scenario of the specification: the file \<^verbatim>\<open>content/rolls/spicy-tuna.md\<close> with the
  front matter \<^verbatim>\<open>title: Spicy Tuna Roll\<close>, \<^verbatim>\<open>price: "$12.50"\<close>. The example loader
  knows this block, loads the block \<^verbatim>\<open>- tuna\<close> as a list of one string, and rejects
  every other text as malformed.
\<close>

definition example_front_matter :: string where
  "example_front_matter =
     ''title: Spicy Tuna Roll'' @ [CHR 0x0A] @ ''price: '' @ [CHR 0x22] @ ''$12.50'' @ [CHR 0x22]"

definition example_content :: string where
  "example_content = ''---'' @ [CHR 0x0A] @ example_front_matter @ [CHR 0x0A] @ ''---'' @ [CHR 0x0A]
                      @ ''Body text'' @ [CHR 0x0A]"

definition example_loader :: "string \<Rightarrow> py_error + yval" where
  "example_loader s =
     (if s = example_front_matter
      then Inr (YMap [(''title'', YStr ''Spicy Tuna Roll''), (''price'', YStr ''$12.50'')])
      else if s = ''- tuna'' then Inr (YSeq [YStr ''tuna''])
      else Inl YAMLError)"

definition example_item :: item where
  "example_item = [(''title'', YStr ''Spicy Tuna Roll''), (''price'', YStr ''$12.50''),
        (''slug'', YStr ''spicy-tuna''),
        (''file_path'', YStr ''content/rolls/spicy-tuna.md''),
        (''category'', YStr ''rolls''), (''content'', YStr ''Body text''),
        (''price_numeric'', YFloat (Finite (25 / 2)))]"

text \<open>
  The same front matter with no closing delimiter line, and the item that the parser
  returns for it: its \<^verbatim>\<open>content\<close> is the whole text. A file whose block is a YAML list.
\<close>

definition unclosed_content :: string where
  "unclosed_content = ''---'' @ [CHR 0x0A] @ example_front_matter"

definition unclosed_item :: item where
  "unclosed_item = [(''title'', YStr ''Spicy Tuna Roll''), (''price'', YStr ''$12.50''),
        (''slug'', YStr ''spicy-tuna''),
        (''file_path'', YStr ''content/rolls/spicy-tuna.md''),
        (''category'', YStr ''rolls''), (''content'', YStr unclosed_content),
        (''price_numeric'', YFloat (Finite (25 / 2)))]"

definition list_block_content :: string where
  "list_block_content = ''---'' @ [CHR 0x0A] @ ''- tuna'' @ [CHR 0x0A] @ ''---'' @ [CHR 0x0A]"

section \<open>Example menus and mappings\<close>

text \<open>
  Two validated items; a mapping file that gives both the same Loyverse identifier,
  with the result of converting them; a mapping file that maps only the first; and a
  mapping file whose \<^verbatim>\<open>items\<close> key for Loyverse has no value, which loads as \<^verbatim>\<open>None\<close>.
\<close>

definition tuna_roll :: item where
  "tuna_roll = [(''title'', YStr ''Tuna Roll''), (''price'', YStr ''$8.00''),
      (''slug'', YStr ''tuna-roll''), (''file_path'', YStr ''content/rolls/tuna-roll.md''),
      (''category'', YStr ''rolls''), (''content'', YStr []),
      (''price_numeric'', YFloat (Finite 8))]"

definition tuna_roll_lunch :: item where
  "tuna_roll_lunch = [(''title'', YStr ''Tuna Roll (Lunch)''), (''price'', YStr ''$6.50''),
      (''slug'', YStr ''tuna-roll-lunch''), (''file_path'', YStr ''content/lunch/tuna-roll-lunch.md''),
      (''category'', YStr ''lunch''), (''content'', YStr []),
      (''price_numeric'', YFloat (Finite (13 / 2)))]"

definition two_items :: menu_items where
  "two_items = [(''tuna-roll'', tuna_roll), (''tuna-roll-lunch'', tuna_roll_lunch)]"

definition colliding_mapping :: yval where
  "colliding_mapping =
     YMap [(''global'', YMap [(''loyverse'', YMap [(''items'',
        YMap [(''tuna-roll'', YStr ''LV-100''), (''tuna-roll-lunch'', YStr ''LV-100'')])])])]"

definition lunch_loyverse_record :: item where
  "lunch_loyverse_record =
     [(''name'', YStr ''Tuna Roll (Lunch)''), (''price'', YFloat (Finite (13 / 2))),
      (''description'', YStr []), (''category'', YStr ''lunch''),
      (''available'', YBool True), (''sku'', YStr ''LV-100''),
      (''hugo_slug'', YStr ''tuna-roll-lunch'')]"

definition colliding_result :: pos_items where
  "colliding_result =
     \<lparr>loyverse = [(YStr ''LV-100'', lunch_loyverse_record)],
      odoo =
        [(YStr ''omg-sushi-tuna-roll'',
          [(''name'', YStr ''Tuna Roll''), (''list_price'', YFloat (Finite 8)),
           (''description'', YStr []), (''categ_id'', YStr ''rolls''),
           (''active'', YBool True), (''default_code'', YStr ''omg-sushi-tuna-roll''),
           (''hugo_slug'', YStr ''tuna-roll'')]),
         (YStr ''omg-sushi-tuna-roll-lunch'',
          [(''name'', YStr ''Tuna Roll (Lunch)''), (''list_price'', YFloat (Finite (13 / 2))),
           (''description'', YStr []), (''categ_id'', YStr ''lunch''),
           (''active'', YBool True), (''default_code'', YStr ''omg-sushi-tuna-roll-lunch''),
           (''hugo_slug'', YStr ''tuna-roll-lunch'')])]\<rparr>"

definition example_mapping :: yval where
  "example_mapping =
     YMap [(''global'', YMap [(''loyverse'', YMap [(''items'',
        YMap [(''tuna-roll'', YStr ''LV-100'')])])])]"

definition null_items_mapping :: yval where
  "null_items_mapping = YMap [(''global'', YMap [(''loyverse'', YMap [(''items'', YNull)])])]"

text \<open>
  A site whose content directory holds an index file and a file without front matter,
  with no configuration files; a converter and a world before the run.
\<close>

definition site_without_items :: env where
  "site_without_items =
     \<lparr>mapping_file = None, menu_file = None,
      content_files = [([''content'', ''_index.md''], Inr example_content),
                       ([''content'', ''about.md''], Inr ''Just text'')],
      data_dir_writable = True,
      cwd = [''site'']\<rparr>"

definition fresh_converter :: converter where
  "fresh_converter = \<lparr>content_dir = [''content''], data_dir = [''data''], menu_data = YMap [],
                       pos_mapping = YMap []\<rparr>"

definition fresh_world :: world where
  "fresh_world = \<lparr>written = [], logged = []\<rparr>"

section \<open>Properties of the validator\<close>

lemmas float_defs = py_float_def split_sign_def float_strip_def remove_char_def float_isspace_def
  round_float_def float_overflow_def to_lower_def parse_decimal_def is_digit_def parse_exponent_def scale10_def digit_val_def

lemmas validate_defs = validate_menu_item_def required_fields_def field_missing_def
  strip_price_def slug_or_unknown_def

lemma first_missing_required:
  "first_missing item_data required_fields =
     (if field_missing item_data ''title'' then Some ''title''
      else if field_missing item_data ''price'' then Some ''price'' else None)"
  by (simp add: required_fields_def)




text \<open>
  C2: when the validator accepts a record, the \<^verbatim>\<open>price_numeric\<close> it stores is the input
  \<^verbatim>\<open>price\<close> converted to a string, with every \<^verbatim>\<open>$\<close> and \<^verbatim>\<open>,\<close> removed, parsed as a float.
\<close>

theorem price_numeric_is_parsed_price:
  assumes "validate_menu_item repr item_data = Inr item'"
  shows "\<exists>p f. map_of item_data ''price'' = Some p \<and>
               py_float (remove_char CHR '','' (remove_char CHR ''$'' (py_str repr p))) = Some f \<and>
               map_of item' ''price_numeric'' = Some (YFloat f)"
  using assms
  by (auto simp: validate_menu_item_def strip_price_def update_conv' split: option.splits)

theorem price_numeric_is_parsed_price_witness:
  "validate_menu_item no_repr [(''title'', YStr ''Spicy Tuna Roll''), (''price'', YStr ''$12.50'')]
     = Inr [(''title'', YStr ''Spicy Tuna Roll''), (''price'', YStr ''$12.50''),
            (''price_numeric'', YFloat (Finite (25 / 2)))]
   \<and> (\<exists>p f. map_of [(''title'', YStr ''Spicy Tuna Roll''), (''price'', YStr ''$12.50'')] ''price''
               = Some p \<and>
             py_float (remove_char CHR '','' (remove_char CHR ''$'' (py_str no_repr p))) = Some f \<and>
             map_of [(''title'', YStr ''Spicy Tuna Roll''), (''price'', YStr ''$12.50''),
                     (''price_numeric'', YFloat (Finite (25 / 2)))] ''price_numeric''
               = Some (YFloat f))"
proof -
  have v: "validate_menu_item no_repr
             [(''title'', YStr ''Spicy Tuna Roll''), (''price'', YStr ''$12.50'')]
           = Inr [(''title'', YStr ''Spicy Tuna Roll''), (''price'', YStr ''$12.50''),
                  (''price_numeric'', YFloat (Finite (25 / 2)))]"
    by (simp add: validate_defs float_defs)
  from price_numeric_is_parsed_price [OF v] v show ?thesis by blast
qed

text \<open>
  C9: a record whose \<^verbatim>\<open>price\<close> is falsy (the number 0, an empty string, ...) is rejected
  with the warning for a missing required field: the warning names \<^verbatim>\<open>price\<close> unless the
  title is missing too, which is reported first. The number 0 itself converts to the
  non-negative float 0.
\<close>

theorem falsy_price_rejected:
  assumes "map_of item_data ''price'' = Some p" and "\<not> truthy p"
  shows "validate_menu_item repr item_data =
           Inl (MissingField (if field_missing item_data ''title'' then ''title'' else ''price'')
                  (slug_or_unknown item_data))"
  using assms by (simp add: validate_menu_item_def first_missing_required field_missing_def)

theorem falsy_price_rejected_witness:
  "validate_menu_item no_repr [(''title'', YStr ''Roll''), (''price'', YInt 0)]
     = Inl (MissingField ''price'' (YStr ''unknown''))
   \<and> py_float (remove_char CHR '','' (remove_char CHR ''$'' (py_str no_repr (YInt 0))))
       = Some (Finite 0)"
proof -
  have "validate_menu_item no_repr [(''title'', YStr ''Roll''), (''price'', YInt 0)]
          = Inl (MissingField ''price'' (YStr ''unknown''))"
    using falsy_price_rejected [of "[(''title'', YStr ''Roll''), (''price'', YInt 0)]" "YInt 0" no_repr]
    by (simp add: field_missing_def slug_or_unknown_def)
  moreover have "py_float (remove_char CHR '','' (remove_char CHR ''$'' (py_str no_repr (YInt 0))))
                   = Some (Finite 0)"
    by (simp add: str_int_def str_nat.simps digit_char_def float_defs)
  ultimately show ?thesis by simp
qed

section \<open>Properties of the front-matter parser\<close>

lemma split_lines_nonempty: "split_lines s \<noteq> []"
  by (induction s) (auto split: list.splits)

lemma hd_split_lines: "hd (split_lines s) = takeWhile (\<lambda>c. c \<noteq> CHR 0x0A) s"
  using split_lines_nonempty by (induction s) (auto split: list.splits)

lemma delimiter_first_line:
  "is_delimiter (hd (split_lines s)) \<longleftrightarrow> starts_with ''---'' s"
proof -
  have "take (length ''---'') (takeWhile (\<lambda>c. c \<noteq> CHR 0x0A) s) = ''---'' \<longleftrightarrow> take (length ''---'') s = ''---''"
  proof (cases s)
    case Nil then show ?thesis by simp
  next
    case (Cons a s1)
    show ?thesis
    proof (cases s1)
      case Nil with Cons show ?thesis by simp
    next
      case (Cons b s2)
      show ?thesis
      proof (cases s2)
        case Nil with \<open>s = a # s1\<close> \<open>s1 = b # s2\<close> show ?thesis by simp
      next
        case (Cons c s3)
        with \<open>s = a # s1\<close> \<open>s1 = b # s2\<close> show ?thesis by auto
      qed
    qed
  qed
  then show ?thesis by (simp add: is_delimiter_def starts_with_def hd_split_lines)
qed

lemma front_matter_loop_inside:
  "fst (front_matter_loop i True fm cs ls) = fm @ takeWhile (\<lambda>l. \<not> is_delimiter l) ls"
  by (induction ls arbitrary: i fm) auto

lemma front_matter_loop_collects:
  assumes "is_delimiter (hd (split_lines content))"
  shows "fst (front_matter_loop 0 False [] 0 (split_lines content)) = collected_block content"
proof (cases "split_lines content")
  case Nil
  then show ?thesis using split_lines_nonempty by simp
next
  case (Cons l ls)
  with assms show ?thesis
    by (simp add: collected_block_def front_matter_loop_inside)
qed

lemma collected_block_spec:
  "spec_front_matter_block content = Some b \<Longrightarrow> collected_block content = b"
  by (auto simp: spec_front_matter_block_def collected_block_def split: list.splits if_splits)

lemma collected_block_unclosed:
  assumes "starts_with ''---'' content" and "spec_front_matter_block content = None"
  shows "collected_block content = tl (split_lines content)"
proof (cases "split_lines content")
  case Nil
  then show ?thesis using split_lines_nonempty by simp
next
  case (Cons first rest)
  from assms(1) have "is_delimiter (hd (split_lines content))" by (simp add: delimiter_first_line)
  with Cons have "is_delimiter first" by simp
  with assms(2) Cons have "\<not> list_ex is_delimiter rest"
    by (simp add: spec_front_matter_block_def split: if_splits)
  then have "\<forall>l \<in> set rest. \<not> is_delimiter l" by (simp add: list_ex_iff)
  then have "takeWhile (\<lambda>l. \<not> is_delimiter l) rest = rest" by (simp add: takeWhile_eq_all_conv)
  with Cons show ?thesis by (simp add: collected_block_def)
qed

lemmas parse_defs = parse_menu_item_def is_delimiter_def starts_with_def path_stem_def path_name_def
  rfind_def path_str_def extract_category_def relative_to_def py_strip_def py_isspace_def

text \<open>
  C7, as stated, fails. A text that begins with a delimiter line and has no second one
  has no block between two delimiters, yet the parser reads the lines to the end of the
  text as the block and returns an item. And a block that is well-formed YAML but a list
  makes the parser raise \<^verbatim>\<open>TypeError\<close> instead of returning "no item".
\<close>

theorem unclosed_block_gives_item:
  "spec_front_matter_block unclosed_content = None
   \<and> parse_menu_item no_repr example_loader [''content''] [''content'', ''rolls'', ''spicy-tuna.md'']
        unclosed_content = Inr ([], Some unclosed_item)
   \<and> parse_menu_item no_repr example_loader [''content''] [''content'', ''rolls'', ''tuna.md'']
        list_block_content = Inl TypeError"
proof -
  have "spec_front_matter_block unclosed_content = None"
    by (simp add: spec_front_matter_block_def unclosed_content_def example_front_matter_def
          is_delimiter_def starts_with_def)
  moreover have "parse_menu_item no_repr example_loader [''content'']
        [''content'', ''rolls'', ''spicy-tuna.md''] unclosed_content = Inr ([], Some unclosed_item)"
    by (simp add: parse_defs unclosed_content_def unclosed_item_def example_front_matter_def
          example_loader_def validate_defs float_defs)
  moreover have "parse_menu_item no_repr example_loader [''content''] [''content'', ''rolls'', ''tuna.md'']
        list_block_content = Inl TypeError"
    by (simp add: parse_defs list_block_content_def example_front_matter_def example_loader_def)
  ultimately show ?thesis by simp
qed

text \<open>
  C7, amended: the parser returns "no item" and raises nothing when the text does not
  begin with a delimiter line, when it collects no line as the block, and when the YAML
  loader rejects the collected block with a YAML error. The block it collects is the
  block between the first and the second delimiter line when there is a second one, and
  all the lines after the first line when the text begins with a delimiter line and has
  no second one.
\<close>

theorem parse_no_item:
  "(\<not> starts_with ''---'' content \<longrightarrow>
      parse_menu_item repr yaml_safe_load base_dir file_path content = Inr ([], None))
   \<and> (collected_block content = [] \<longrightarrow>
      parse_menu_item repr yaml_safe_load base_dir file_path content = Inr ([], None))
   \<and> (yaml_safe_load (join_with [CHR 0x0A] (collected_block content)) = Inl YAMLError \<longrightarrow>
      (\<exists>lg. parse_menu_item repr yaml_safe_load base_dir file_path content = Inr (lg, None)))
   \<and> (\<forall>b. spec_front_matter_block content = Some b \<longrightarrow> collected_block content = b)
   \<and> (starts_with ''---'' content \<and> spec_front_matter_block content = None \<longrightarrow>
      collected_block content = tl (split_lines content))"
proof -
  have abc: "(\<not> starts_with ''---'' content \<longrightarrow>
      parse_menu_item repr yaml_safe_load base_dir file_path content = Inr ([], None))
   \<and> (collected_block content = [] \<longrightarrow>
      parse_menu_item repr yaml_safe_load base_dir file_path content = Inr ([], None))
   \<and> (yaml_safe_load (join_with [CHR 0x0A] (collected_block content)) = Inl YAMLError \<longrightarrow>
      (\<exists>lg. parse_menu_item repr yaml_safe_load base_dir file_path content = Inr (lg, None)))"
  proof (cases "is_delimiter (hd (split_lines content))")
    case False
    then have "parse_menu_item repr yaml_safe_load base_dir file_path content = Inr ([], None)"
      by (simp add: parse_menu_item_def)
    then show ?thesis by simp
  next
    case True
    then have s: "starts_with ''---'' content" by (simp add: delimiter_first_line)
    obtain fm cs where l: "front_matter_loop 0 False [] 0 (split_lines content) = (fm, cs)"
      by (cases "front_matter_loop 0 False [] 0 (split_lines content)")
    with front_matter_loop_collects [OF True] have fm: "fm = collected_block content" by simp
    have a: "collected_block content = [] \<longrightarrow>
        parse_menu_item repr yaml_safe_load base_dir file_path content = Inr ([], None)"
      using True l fm by (simp add: parse_menu_item_def split_lines_nonempty)
    have b: "yaml_safe_load (join_with [CHR 0x0A] (collected_block content)) = Inl YAMLError \<longrightarrow>
        (\<exists>lg. parse_menu_item repr yaml_safe_load base_dir file_path content = Inr (lg, None))"
      using True l fm by (simp add: parse_menu_item_def split_lines_nonempty)
    from s a b show ?thesis by simp
  qed
  have d: "\<forall>b. spec_front_matter_block content = Some b \<longrightarrow> collected_block content = b"
    using collected_block_spec by blast
  have e: "starts_with ''---'' content \<and> spec_front_matter_block content = None \<longrightarrow>
      collected_block content = tl (split_lines content)"
    using collected_block_unclosed by blast
  from abc d e show ?thesis by (intro conjI) simp_all
qed

theorem parse_no_item_witness:
  "parse_menu_item no_repr example_loader [''content''] [''content'', ''a.md''] ''Just text'' = Inr ([], None)
   \<and> parse_menu_item no_repr example_loader [''content''] [''content'', ''a.md'']
        (''---'' @ [CHR 0x0A] @ ''---'' @ [CHR 0x0A] @ ''Body'') = Inr ([], None)
   \<and> (\<exists>lg. parse_menu_item no_repr example_loader [''content''] [''content'', ''a.md'']
        (''---'' @ [CHR 0x0A] @ ''title: ['' @ [CHR 0x0A] @ ''---'' @ [CHR 0x0A]) = Inr (lg, None))
   \<and> collected_block example_content = split_lines example_front_matter
   \<and> collected_block unclosed_content = split_lines example_front_matter"
proof -
  have 1: "\<not> starts_with ''---'' ''Just text''" by (simp add: starts_with_def)
  have 2: "collected_block (''---'' @ [CHR 0x0A] @ ''---'' @ [CHR 0x0A] @ ''Body'') = []"
    by (simp add: collected_block_def is_delimiter_def starts_with_def)
  have 3: "example_loader (join_with [CHR 0x0A]
             (collected_block (''---'' @ [CHR 0x0A] @ ''title: ['' @ [CHR 0x0A] @ ''---'' @ [CHR 0x0A])))
           = Inl YAMLError"
    by (simp add: collected_block_def is_delimiter_def starts_with_def example_loader_def
          example_front_matter_def)
  have 4: "spec_front_matter_block example_content = Some (split_lines example_front_matter)"
    by (simp add: spec_front_matter_block_def example_content_def example_front_matter_def
          is_delimiter_def starts_with_def)
  have 5: "starts_with ''---'' unclosed_content \<and> spec_front_matter_block unclosed_content = None"
    by (simp add: spec_front_matter_block_def unclosed_content_def example_front_matter_def
          is_delimiter_def starts_with_def)
  have 6: "tl (split_lines unclosed_content) = split_lines example_front_matter"
    by (simp add: unclosed_content_def example_front_matter_def)
  show ?thesis
    using 1 2 3 4 5 6
      parse_no_item [where content = "''Just text''" and repr = no_repr
        and yaml_safe_load = example_loader and base_dir = "[''content'']"
        and file_path = "[''content'', ''a.md'']"]
      parse_no_item [where content = "''---'' @ [CHR 0x0A] @ ''---'' @ [CHR 0x0A] @ ''Body''"
        and repr = no_repr and yaml_safe_load = example_loader and base_dir = "[''content'']"
        and file_path = "[''content'', ''a.md'']"]
      parse_no_item [where content = "''---'' @ [CHR 0x0A] @ ''title: ['' @ [CHR 0x0A] @ ''---'' @ [CHR 0x0A]"
        and repr = no_repr and yaml_safe_load = example_loader and base_dir = "[''content'']"
        and file_path = "[''content'', ''a.md'']"]
      parse_no_item [where content = example_content and repr = no_repr
        and yaml_safe_load = example_loader and base_dir = "[''content'']"
        and file_path = "[''content'', ''a.md'']"]
      parse_no_item [where content = unclosed_content and repr = no_repr
        and yaml_safe_load = example_loader and base_dir = "[''content'']"
        and file_path = "[''content'', ''a.md'']"]
    by simp
qed

lemma validate_keeps:
  "validate_menu_item repr d = Inr d' \<Longrightarrow> k \<noteq> ''price_numeric'' \<Longrightarrow> map_of d' k = map_of d k"
  by (auto simp: validate_menu_item_def update_conv' split: option.splits)

lemma relative_to_Inr: "relative_to p other = Inr rel \<Longrightarrow> p = other @ rel"
  by (auto simp: relative_to_def split: if_splits) (metis append_take_drop_id)

lemma stem_suffix: "path_stem p @ path_suffix p = path_name p"
  by (simp add: path_stem_def path_suffix_def Let_def split: option.splits)

lemma rfind_md: "rfind CHR ''.'' (b @ ''.md'') = Some (length b)"
  by (simp add: rfind_def)

lemma stem_md: "path_name p = b @ ''.md'' \<Longrightarrow> b \<noteq> [] \<Longrightarrow> path_stem p = b"
  by (simp add: path_stem_def rfind_md)

lemma parse_Some_fields:
  assumes "parse_menu_item repr yaml_safe_load base_dir file_path content = Inr (lg, Some item_data)"
  shows "\<exists>category. extract_category base_dir file_path = Inr category \<and>
           map_of item_data ''category'' = Some (YStr category) \<and>
           map_of item_data ''slug'' = Some (YStr (path_stem file_path))"
  using assms
  by (auto simp: parse_menu_item_def Let_def update_conv' validate_keeps
           simp del: AList.update.simps
           split: if_splits prod.splits sum.splits yval.splits)

lemma example_parse:
  "parse_menu_item no_repr example_loader [''content''] [''content'', ''rolls'', ''spicy-tuna.md'']
     example_content = Inr ([], Some example_item)"
  by (simp add: parse_menu_item_def example_content_def example_front_matter_def example_loader_def
        example_item_def is_delimiter_def starts_with_def path_stem_def path_name_def rfind_def
        path_str_def extract_category_def relative_to_def py_strip_def py_isspace_def
        validate_defs float_defs)

text \<open>
  C5: the category of a parsed item is the first segment of the file's path relative
  to the content root when that path has more than one segment, and \<^verbatim>\<open>uncategorized\<close>
  when the file sits at the root; its slug is the file name without its extension,
  which for a name \<^verbatim>\<open>b.md\<close> is \<^verbatim>\<open>b\<close>.
\<close>

theorem parsed_item_category_and_slug:
  assumes "parse_menu_item repr yaml_safe_load base_dir file_path content = Inr (lg, Some item_data)"
  shows "\<exists>rel. file_path = base_dir @ rel \<and>
           map_of item_data ''category''
             = Some (YStr (if length rel > 1 then hd rel else ''uncategorized'')) \<and>
           map_of item_data ''slug'' = Some (YStr (path_stem file_path)) \<and>
           path_stem file_path @ path_suffix file_path = path_name file_path \<and>
           (\<forall>b. path_name file_path = b @ ''.md'' \<and> b \<noteq> [] \<longrightarrow> path_stem file_path = b)"
proof -
  from parse_Some_fields [OF assms] obtain category where
    cat: "extract_category base_dir file_path = Inr category" and
    mc: "map_of item_data ''category'' = Some (YStr category)" and
    ms: "map_of item_data ''slug'' = Some (YStr (path_stem file_path))"
    by blast
  from cat obtain rel where rel: "relative_to file_path base_dir = Inr rel"
    and c: "category = (if length rel > 1 then hd rel else ''uncategorized'')"
    by (auto simp: extract_category_def split: sum.splits)
  have "file_path = base_dir @ rel" by (rule relative_to_Inr [OF rel])
  with mc ms c stem_suffix stem_md show ?thesis by blast
qed

theorem parsed_item_category_and_slug_witness:
  "parse_menu_item no_repr example_loader [''content''] [''content'', ''rolls'', ''spicy-tuna.md'']
     example_content = Inr ([], Some example_item)
   \<and> map_of example_item ''category'' = Some (YStr ''rolls'')
   \<and> map_of example_item ''slug'' = Some (YStr ''spicy-tuna'')
   \<and> path_stem [''content'', ''rolls'', ''spicy-tuna.md''] = ''spicy-tuna''"
proof -
  from parsed_item_category_and_slug [OF example_parse]
  have "path_name [''content'', ''rolls'', ''spicy-tuna.md''] = ''spicy-tuna'' @ ''.md'' \<and> ''spicy-tuna'' \<noteq> []
          \<longrightarrow> path_stem [''content'', ''rolls'', ''spicy-tuna.md''] = ''spicy-tuna''"
    by blast
  then have "path_stem [''content'', ''rolls'', ''spicy-tuna.md''] = ''spicy-tuna''"
    by (simp add: path_name_def)
  then show ?thesis using example_parse by (simp add: example_item_def)
qed

section \<open>Properties of dictionary assignment\<close>

lemma same_key_refl [simp]: "same_key a a"
  by (simp add: same_key_def)

lemma same_key_sym: "same_key a b \<Longrightarrow> same_key b a"
  unfolding same_key_def by metis

lemma same_key_trans: "same_key a b \<Longrightarrow> same_key b c \<Longrightarrow> same_key a c"
  unfolding same_key_def by metis

lemma same_key_YStr [simp]: "same_key (YStr s) v \<longleftrightarrow> v = YStr s" "same_key v (YStr s) \<longleftrightarrow> v = YStr s"
  by (cases v; auto simp: same_key_def)+

lemma dict_set_keys_subset: "fst ` set (dict_set k v t) \<subseteq> insert k (fst ` set t)"
  by (induction t) auto

lemma dict_set_keeps_keys: "x \<in> set t \<Longrightarrow> fst x \<in> fst ` set (dict_set k v t)"
  by (induction t) auto

lemma dict_set_has: "\<exists>kr \<in> set (dict_set k v t). same_key (fst kr) k \<and> snd kr = v"
  by (induction t) auto

lemma dict_set_other: "kr \<in> set t \<Longrightarrow> \<not> same_key (fst kr) k \<Longrightarrow> kr \<in> set (dict_set k v t)"
  by (induction t) auto

lemma dict_set_origin:
  "kr \<in> set (dict_set k v t) \<Longrightarrow> kr \<in> set t \<or> (same_key (fst kr) k \<and> snd kr = v)"
  by (induction t) (auto split: if_splits)

lemma dict_set_fresh: "\<forall>x \<in> set t. \<not> same_key (fst x) k \<Longrightarrow> dict_set k v t = t @ [(k, v)]"
  by (induction t) auto

lemma dict_ok_dict_set: "dict_ok t \<Longrightarrow> dict_ok (dict_set k v t)"
proof (induction t)
  case Nil
  then show ?case by simp
next
  case (Cons e t)
  show ?case
  proof (cases "same_key (fst e) k")
    case True
    with Cons.prems show ?thesis by simp
  next
    case False
    have "\<forall>x \<in> set (dict_set k v t). \<not> same_key (fst e) (fst x)"
    proof
      fix x assume "x \<in> set (dict_set k v t)"
      then have "fst x \<in> insert k (fst ` set t)" using dict_set_keys_subset [of k v t] by auto
      with False Cons.prems show "\<not> same_key (fst e) (fst x)" by auto
    qed
    with False Cons show ?thesis by simp
  qed
qed

lemma dict_ok_keys: "map fst xs = map fst ys \<Longrightarrow> dict_ok xs = dict_ok ys"
proof (induction xs arbitrary: ys)
  case Nil
  then show ?case by simp
next
  case (Cons x xs)
  then obtain y ys' where ys: "ys = y # ys'" and f: "fst x = fst y" and m: "map fst xs = map fst ys'"
    by (cases ys) auto
  from m have "fst ` set xs = fst ` set ys'" by (metis set_map)
  then have "(\<forall>a \<in> set xs. \<not> same_key (fst x) (fst a)) = (\<forall>a \<in> set ys'. \<not> same_key (fst y) (fst a))"
    using f by (auto simp: image_iff) (metis fst_conv image_iff)+
  with Cons.IH [OF m] ys show ?case by simp
qed

lemma set_items_append: "set_items t (xs @ ys) = set_items (set_items t xs) ys"
  by (induction xs arbitrary: t) auto

lemma dict_ok_set_items: "dict_ok t \<Longrightarrow> dict_ok (set_items t es)"
  by (induction es arbitrary: t) (auto simp: dict_ok_dict_set)

lemma set_items_keeps:
  "kr \<in> set t \<Longrightarrow> \<forall>e \<in> set es. \<not> same_key (fst kr) (fst e) \<Longrightarrow> kr \<in> set (set_items t es)"
  by (induction es arbitrary: t) (auto simp: dict_set_other)

lemma set_items_keeps_keys: "x \<in> set t \<Longrightarrow> fst x \<in> fst ` set (set_items t es)"
proof (induction es arbitrary: t x)
  case Nil
  then show ?case by simp
next
  case (Cons e es)
  from dict_set_keeps_keys [OF Cons.prems, of "fst e" "snd e"]
  obtain y where "y \<in> set (dict_set (fst e) (snd e) t)" and "fst y = fst x" by auto
  with Cons.IH [of y "dict_set (fst e) (snd e) t"] show ?case by simp
qed

lemma set_items_covers:
  "e \<in> set es \<Longrightarrow> \<exists>kr \<in> set (set_items t es). same_key (fst kr) (fst e)"
proof (induction es arbitrary: t)
  case Nil
  then show ?case by simp
next
  case (Cons a es)
  show ?case
  proof (cases "e = a")
    case True
    from dict_set_has [of "fst a" "snd a" t] obtain kr where
      kr: "kr \<in> set (dict_set (fst a) (snd a) t)" and s: "same_key (fst kr) (fst a)" by blast
    from set_items_keeps_keys [OF kr, of es] obtain y where
      y: "y \<in> set (set_items (dict_set (fst a) (snd a) t) es)" and f: "fst y = fst kr" by auto
    from s f have "same_key (fst y) (fst a)" by simp
    with y True show ?thesis by (intro bexI [where x = y]) simp_all
  next
    case False
    with Cons.prems have "e \<in> set es" by simp
    from Cons.IH [OF this] show ?thesis by simp
  qed
qed

lemma set_items_origin:
  "kr \<in> set (set_items t es) \<Longrightarrow>
     kr \<in> set t \<or> (\<exists>e \<in> set es. same_key (fst kr) (fst e) \<and> snd kr = snd e)"
proof (induction es arbitrary: t)
  case Nil
  then show ?case by simp
next
  case (Cons a es)
  from Cons.IH [of "dict_set (fst a) (snd a) t"] Cons.prems
  have "kr \<in> set (dict_set (fst a) (snd a) t) \<or> (\<exists>e \<in> set es. same_key (fst kr) (fst e) \<and> snd kr = snd e)"
    by simp
  then show ?case using dict_set_origin [of kr "fst a" "snd a" t] by auto
qed

lemma set_items_key_origin:
  "kr \<in> set (set_items t es) \<Longrightarrow> fst kr \<in> fst ` set t \<or> fst kr \<in> fst ` set es"
proof (induction es arbitrary: t)
  case Nil
  then show ?case by simp
next
  case (Cons a es)
  from Cons.IH [of "dict_set (fst a) (snd a) t"] Cons.prems
  have "fst kr \<in> fst ` set (dict_set (fst a) (snd a) t) \<or> fst kr \<in> fst ` set es" by simp
  then show ?case using dict_set_keys_subset [of "fst a" "snd a" t] by auto
qed

lemma set_items_last:
  assumes "es = pre @ e # post" and "\<forall>x \<in> set post. \<not> same_key (fst x) (fst e)"
  shows "\<exists>kr \<in> set (set_items t es). same_key (fst kr) (fst e) \<and> snd kr = snd e"
proof -
  let ?t1 = "set_items t pre"
  from dict_set_has [of "fst e" "snd e" ?t1] obtain kr where
    kr: "kr \<in> set (dict_set (fst e) (snd e) ?t1)" and s: "same_key (fst kr) (fst e)"
    and v: "snd kr = snd e" by blast
  have "\<forall>x \<in> set post. \<not> same_key (fst kr) (fst x)"
  proof
    fix x assume x: "x \<in> set post"
    show "\<not> same_key (fst kr) (fst x)"
    proof
      assume "same_key (fst kr) (fst x)"
      then have "same_key (fst x) (fst kr)" by (rule same_key_sym)
      from same_key_trans [OF this s] assms(2) x show False by simp
    qed
  qed
  from set_items_keeps [OF kr this]
  have "kr \<in> set (set_items t es)" by (simp add: assms(1) set_items_append)
  with s v show ?thesis by blast
qed

lemma set_items_fresh:
  "dict_ok es \<Longrightarrow> \<forall>x \<in> set t. \<forall>e \<in> set es. \<not> same_key (fst x) (fst e) \<Longrightarrow> set_items t es = t @ es"
proof (induction es arbitrary: t)
  case Nil
  then show ?case by simp
next
  case (Cons a es)
  from Cons.prems(2) have "\<forall>x \<in> set t. \<not> same_key (fst x) (fst a)" by simp
  then have d: "dict_set (fst a) (snd a) t = t @ [a]" by (simp add: dict_set_fresh)
  have "\<forall>x \<in> set (t @ [a]). \<forall>e \<in> set es. \<not> same_key (fst x) (fst e)"
    using Cons.prems by auto
  with Cons.IH [of "t @ [a]"] Cons.prems(1) d show ?case by simp
qed

lemma py_lookup_Some:
  assumes "\<exists>kr \<in> set t. same_key (fst kr) k"
  shows "\<exists>kr \<in> set t. same_key (fst kr) k \<and> py_lookup t k = Some (snd kr)"
proof (cases "find (\<lambda>e. same_key (fst e) k) t")
  case None
  with assms show ?thesis by (auto simp: find_None_iff)
next
  case (Some kr)
  then have "kr \<in> set t \<and> same_key (fst kr) k"
    by (auto simp: find_Some_iff in_set_conv_nth)
  with Some show ?thesis by (auto simp: py_lookup_def)
qed

lemma list_all2_set1: "list_all2 R xs ys \<Longrightarrow> x \<in> set xs \<Longrightarrow> \<exists>y \<in> set ys. R x y"
  by (induction rule: list_all2_induct) auto

lemma list_all2_set2: "list_all2 R xs ys \<Longrightarrow> y \<in> set ys \<Longrightarrow> \<exists>x \<in> set xs. R x y"
  by (induction rule: list_all2_induct) auto

section \<open>Properties of the POS transformer\<close>

lemma and_then_Inr:
  "and_then r f = Inr y \<longleftrightarrow> (\<exists>x. r = Inr x \<and> f x = Inr y)"
  by (cases r) (simp_all add: and_then_def)

lemma dict_get_Inr:
  "dict_get v key dflt = Inr x \<longleftrightarrow>
     (\<exists>d. v = YMap d \<and> x = (case map_of d key of Some y \<Rightarrow> y | None \<Rightarrow> dflt))"
  by (cases v) (auto simp: dict_get_def)

lemma items_level_dict:
  "items_level mapping system = Inr (YMap t) \<Longrightarrow>
     external_id mapping system slug =
       (case map_of t slug of Some ident \<Rightarrow> ident | None \<Rightarrow> YStr (''omg-sushi-'' @ slug))"
  by (auto simp: items_level_def system_items_def and_then_Inr dict_get_Inr external_id_def
        explicit_entry_def split: option.splits yval.splits)

lemma item_ident_external:
  assumes "item_ident mapping system slug = Inr v"
  shows "v = external_id mapping system slug"
proof -
  from assms obtain d where l: "items_level mapping system = Inr (YMap d)"
    and v: "v = (case map_of d slug of Some y \<Rightarrow> y | None \<Rightarrow> YStr (''omg-sushi-'' @ slug))"
    by (auto simp: item_ident_def and_then_Inr pos_id_def dict_get_Inr cong: option.case_cong)
  from items_level_dict [OF l, of slug] v show ?thesis by (simp split: option.splits)
qed

lemma item_ident_shape:
  assumes "mapping_shape_ok mapping system"
  shows "item_ident mapping system slug = Inr (external_id mapping system slug)"
proof -
  from assms obtain d where l: "items_level mapping system = Inr (YMap d)"
    by (auto simp: mapping_shape_ok_def split: sum.splits yval.splits)
  then have "item_ident mapping system slug
               = Inr (case map_of d slug of Some y \<Rightarrow> y | None \<Rightarrow> YStr (''omg-sushi-'' @ slug))"
    by (simp add: item_ident_def and_then_def pos_id_def dict_get_def cong: option.case_cong)
  with items_level_dict [OF l, of slug] show ?thesis by (simp split: option.splits)
qed

lemma item_ident_shape_ok:
  "item_ident mapping system slug = Inr v \<Longrightarrow> mapping_shape_ok mapping system"
  by (auto simp: mapping_shape_ok_def item_ident_def and_then_Inr pos_id_def dict_get_Inr)

lemma loyverse_record_fields:
  "loyverse_record k slug item_data = Inr r \<Longrightarrow>
     map_of r ''sku'' = Some k \<and> map_of r ''hugo_slug'' = Some (YStr slug)"
  by (auto simp: loyverse_record_def and_then_Inr)

lemma odoo_record_fields:
  "odoo_record k slug item_data = Inr r \<Longrightarrow>
     map_of r ''default_code'' = Some k \<and> map_of r ''hugo_slug'' = Some (YStr slug)"
  by (auto simp: odoo_record_def and_then_Inr)

lemma records_total:
  "menu_item_fields item_data \<Longrightarrow>
     (\<exists>r. loyverse_record k slug item_data = Inr r) \<and> (\<exists>r. odoo_record k slug item_data = Inr r)"
  by (auto simp: menu_item_fields_def loyverse_record_def odoo_record_def and_then_def py_index_def)

lemma convert_item_Inr:
  "convert_item mapping acc e = Inr acc' \<longleftrightarrow>
     (\<exists>lkr okr. loyverse_row mapping e lkr \<and> odoo_row mapping e okr \<and>
        acc' = \<lparr>loyverse = dict_set (fst lkr) (snd lkr) (loyverse acc),
                odoo = dict_set (fst okr) (snd okr) (odoo acc)\<rparr>)"
proof (cases e)
  case (Pair slug item_data)
  show ?thesis
  proof
    assume "convert_item mapping acc e = Inr acc'"
    with Pair obtain g lg lk lrec og ok orec where
      g: "dict_get mapping ''global'' (YMap []) = Inr g" and
      lg: "system_items g ''loyverse'' = Inr lg" and lk: "pos_id lg slug = Inr lk" and
      lrec: "loyverse_record lk slug item_data = Inr lrec" and hl: "hashable lk" and
      og: "system_items g ''odoo'' = Inr og" and ok: "pos_id og slug = Inr ok" and
      orec: "odoo_record ok slug item_data = Inr orec" and ho: "hashable ok" and
      a: "acc' = acc\<lparr>loyverse := dict_set lk lrec (loyverse acc), odoo := dict_set ok orec (odoo acc)\<rparr>"
      by (auto simp: convert_item_def and_then_Inr set_item_def split: if_splits)
    have "loyverse_row mapping e (lk, lrec)"
      using g lg lk lrec hl Pair
      by (simp add: loyverse_row_def item_ident_def items_level_def and_then_def)
    moreover have "odoo_row mapping e (ok, orec)"
      using g og ok orec ho Pair
      by (simp add: odoo_row_def item_ident_def items_level_def and_then_def)
    moreover have "acc' = \<lparr>loyverse = dict_set lk lrec (loyverse acc),
                odoo = dict_set ok orec (odoo acc)\<rparr>"
      using a by (cases acc) simp
    ultimately show "\<exists>lkr okr. loyverse_row mapping e lkr \<and> odoo_row mapping e okr \<and>
        acc' = \<lparr>loyverse = dict_set (fst lkr) (snd lkr) (loyverse acc),
                odoo = dict_set (fst okr) (snd okr) (odoo acc)\<rparr>"
      by (intro exI [where x = "(lk, lrec)"] exI [where x = "(ok, orec)"]) simp
  next
    assume "\<exists>lkr okr. loyverse_row mapping e lkr \<and> odoo_row mapping e okr \<and>
        acc' = \<lparr>loyverse = dict_set (fst lkr) (snd lkr) (loyverse acc),
                odoo = dict_set (fst okr) (snd okr) (odoo acc)\<rparr>"
    then obtain lkr okr where
      l: "loyverse_row mapping e lkr" and od: "odoo_row mapping e okr" and
      a: "acc' = \<lparr>loyverse = dict_set (fst lkr) (snd lkr) (loyverse acc),
                odoo = dict_set (fst okr) (snd okr) (odoo acc)\<rparr>"
      by blast
    from l Pair obtain g lg where
      g: "dict_get mapping ''global'' (YMap []) = Inr g" and
      lg: "system_items g ''loyverse'' = Inr lg" and lk: "pos_id lg slug = Inr (fst lkr)" and
      lrec: "loyverse_record (fst lkr) slug item_data = Inr (snd lkr)" and hl: "hashable (fst lkr)"
      by (auto simp: loyverse_row_def item_ident_def items_level_def and_then_Inr)
    from od Pair g obtain og where
      og: "system_items g ''odoo'' = Inr og" and ok: "pos_id og slug = Inr (fst okr)" and
      orec: "odoo_record (fst okr) slug item_data = Inr (snd okr)" and ho: "hashable (fst okr)"
      by (auto simp: odoo_row_def item_ident_def items_level_def and_then_Inr)
    show "convert_item mapping acc e = Inr acc'"
      using Pair g lg lk lrec hl og ok orec ho a
      by (cases acc) (simp add: convert_item_def and_then_def set_item_def)
  qed
qed

lemma convert_loop_set_items:
  "convert_loop mapping acc menu_items = Inr pos \<Longrightarrow>
     \<exists>lrows orows. list_all2 (loyverse_row mapping) menu_items lrows \<and>
        list_all2 (odoo_row mapping) menu_items orows \<and>
        loyverse pos = set_items (loyverse acc) lrows \<and> odoo pos = set_items (odoo acc) orows"
proof (induction menu_items arbitrary: acc)
  case Nil
  then show ?case by simp
next
  case (Cons e rest)
  from Cons.prems obtain acc' where a: "convert_item mapping acc e = Inr acc'"
    and l: "convert_loop mapping acc' rest = Inr pos"
    by (auto split: sum.splits)
  from a obtain lkr okr where
    lr: "loyverse_row mapping e lkr" and orr: "odoo_row mapping e okr" and
    la: "loyverse acc' = dict_set (fst lkr) (snd lkr) (loyverse acc)" and
    oa: "odoo acc' = dict_set (fst okr) (snd okr) (odoo acc)"
    by (auto simp: convert_item_Inr)
  from Cons.IH [OF l] obtain lrows orows where
    1: "list_all2 (loyverse_row mapping) rest lrows" and
    2: "list_all2 (odoo_row mapping) rest orows" and
    3: "loyverse pos = set_items (loyverse acc') lrows" and
    4: "odoo pos = set_items (odoo acc') orows"
    by blast
  have "list_all2 (loyverse_row mapping) (e # rest) (lkr # lrows)" using lr 1 by simp
  moreover have "list_all2 (odoo_row mapping) (e # rest) (okr # orows)" using orr 2 by simp
  moreover have "loyverse pos = set_items (loyverse acc) (lkr # lrows)" using 3 la by simp
  moreover have "odoo pos = set_items (odoo acc) (okr # orows)" using 4 oa by simp
  ultimately show ?case by blast
qed

lemma convert_loop_total:
  assumes "\<forall>e \<in> set menu_items. menu_item_fields (snd e) \<and>
             hashable (external_id mapping ''loyverse'' (fst e)) \<and>
             hashable (external_id mapping ''odoo'' (fst e))"
    and "mapping_shape_ok mapping ''loyverse''" and "mapping_shape_ok mapping ''odoo''"
  shows "\<exists>pos. convert_loop mapping acc menu_items = Inr pos"
  using assms(1)
proof (induction menu_items arbitrary: acc)
  case Nil
  then show ?case by simp
next
  case (Cons e rest)
  from Cons.prems have f: "menu_item_fields (snd e)"
    and hl: "hashable (external_id mapping ''loyverse'' (fst e))"
    and ho: "hashable (external_id mapping ''odoo'' (fst e))" by simp_all
  from records_total [OF f] obtain lrec orec where
    lrec: "loyverse_record (external_id mapping ''loyverse'' (fst e)) (fst e) (snd e) = Inr lrec" and
    orec: "odoo_record (external_id mapping ''odoo'' (fst e)) (fst e) (snd e) = Inr orec"
    by blast
  have "loyverse_row mapping e (external_id mapping ''loyverse'' (fst e), lrec)"
    using item_ident_shape [OF assms(2)] hl lrec by (simp add: loyverse_row_def)
  moreover have "odoo_row mapping e (external_id mapping ''odoo'' (fst e), orec)"
    using item_ident_shape [OF assms(3)] ho orec by (simp add: odoo_row_def)
  ultimately obtain acc' where "convert_item mapping acc e = Inr acc'"
    using convert_item_Inr by blast
  moreover from Cons.prems have "\<forall>e \<in> set rest. menu_item_fields (snd e) \<and>
             hashable (external_id mapping ''loyverse'' (fst e)) \<and>
             hashable (external_id mapping ''odoo'' (fst e))" by simp
  ultimately show ?case using Cons.IH [of acc'] by simp
qed

lemma holds_records_set_items:
  assumes rows: "list_all2 (\<lambda>e kr. fst kr = ident (fst e) \<and>
                    record (fst kr) (fst e) (snd e) = Inr (snd kr)) menu_items rows"
  shows "holds_records ident record menu_items (set_items [] rows)"
proof -
  let ?R = "\<lambda>e kr. fst kr = ident (fst e) \<and> record (fst kr) (fst e) (snd e) = Inr (snd kr)"
  let ?t = "set_items [] rows"
  have ok: "dict_ok ?t" by (rule dict_ok_set_items) simp
  have keys: "\<forall>kr \<in> set ?t. \<exists>e \<in> set menu_items. same_key (fst kr) (ident (fst e))"
  proof
    fix kr assume "kr \<in> set ?t"
    from set_items_origin [OF this] obtain r where r: "r \<in> set rows" and s: "same_key (fst kr) (fst r)"
      by auto
    from list_all2_set2 [OF rows r] obtain e where "e \<in> set menu_items" and "fst r = ident (fst e)"
      by auto
    with s show "\<exists>e \<in> set menu_items. same_key (fst kr) (ident (fst e))" by auto
  qed
  have cover: "\<forall>e \<in> set menu_items. \<exists>kr \<in> set ?t. same_key (fst kr) (ident (fst e))"
  proof
    fix e assume "e \<in> set menu_items"
    from list_all2_set1 [OF rows this] obtain r where r: "r \<in> set rows" and "fst r = ident (fst e)"
      by auto
    with set_items_covers [OF r, of "[]"] show "\<exists>kr \<in> set ?t. same_key (fst kr) (ident (fst e))"
      by simp
  qed
  have last: "\<forall>pre e post.
         menu_items = pre @ e # post \<and>
         (\<forall>x \<in> set post. \<not> same_key (ident (fst x)) (ident (fst e))) \<longrightarrow>
         (\<exists>kr \<in> set ?t. same_key (fst kr) (ident (fst e)) \<and>
            record (ident (fst e)) (fst e) (snd e) = Inr (snd kr))"
  proof (intro allI impI)
    fix pre e post
    assume a: "menu_items = pre @ e # post \<and>
         (\<forall>x \<in> set post. \<not> same_key (ident (fst x)) (ident (fst e)))"
    with rows have "list_all2 ?R (pre @ e # post) rows" by simp
    then obtain rpre rrest where r1: "rows = rpre @ rrest" and "list_all2 ?R pre rpre"
      and rr: "list_all2 ?R (e # post) rrest"
      by (auto simp: list_all2_append1)
    from rr obtain r rpost where r2: "rrest = r # rpost" and re: "?R e r"
      and rp: "list_all2 ?R post rpost"
      by (auto simp: list_all2_Cons1)
    have "\<forall>x \<in> set rpost. \<not> same_key (fst x) (fst r)"
    proof
      fix x assume "x \<in> set rpost"
      from list_all2_set2 [OF rp this] obtain y where "y \<in> set post" and "fst x = ident (fst y)"
        by auto
      with a re show "\<not> same_key (fst x) (fst r)" by simp
    qed
    from set_items_last [of rows rpre r rpost, OF _ this, of "[]"] r1 r2
    obtain kr where k1: "kr \<in> set ?t" and k2: "same_key (fst kr) (fst r)" and k3: "snd kr = snd r"
      by auto
    from re have f: "fst r = ident (fst e)" and g: "record (fst r) (fst e) (snd e) = Inr (snd r)"
      by blast+
    from k2 f have "same_key (fst kr) (ident (fst e))" by simp
    moreover from g have "record (ident (fst e)) (fst e) (snd e) = Inr (snd kr)"
      unfolding f k3 .
    ultimately show "\<exists>kr \<in> set ?t. same_key (fst kr) (ident (fst e)) \<and>
            record (ident (fst e)) (fst e) (snd e) = Inr (snd kr)"
      using k1 by (intro bexI [where x = kr] conjI)
  qed
  have dist: "dict_ok (map (\<lambda>e. (ident (fst e), snd e)) menu_items) \<longrightarrow> list_all2 ?R menu_items ?t"
  proof
    assume d: "dict_ok (map (\<lambda>e. (ident (fst e), snd e)) menu_items)"
    have "map fst rows = map (\<lambda>e. ident (fst e)) menu_items"
      using rows by (induction rule: list_all2_induct) auto
    then have "map fst rows = map fst (map (\<lambda>e. (ident (fst e), snd e)) menu_items)"
      by (simp add: comp_def)
    from dict_ok_keys [OF this] d have "dict_ok rows" by simp
    then have "set_items [] rows = rows" using set_items_fresh [of rows "[]"] by simp
    with rows show "list_all2 ?R menu_items ?t" by simp
  qed
  from ok keys cover last dist show ?thesis
    unfolding holds_records_def by (intro conjI)
qed

lemma loyverse_rows_external:
  "list_all2 (loyverse_row mapping) menu_items rows \<Longrightarrow>
     list_all2 (\<lambda>e kr. fst kr = external_id mapping ''loyverse'' (fst e) \<and>
                  loyverse_record (fst kr) (fst e) (snd e) = Inr (snd kr)) menu_items rows"
  by (erule list_all2_mono) (auto simp: loyverse_row_def dest: item_ident_external)

lemma odoo_rows_external:
  "list_all2 (odoo_row mapping) menu_items rows \<Longrightarrow>
     list_all2 (\<lambda>e kr. fst kr = external_id mapping ''odoo'' (fst e) \<and>
                  odoo_record (fst kr) (fst e) (snd e) = Inr (snd kr)) menu_items rows"
  by (erule list_all2_mono) (auto simp: odoo_row_def dest: item_ident_external)

lemma convert_tables:
  assumes "convert_to_pos_format mapping menu_items = Inr pos"
  shows "\<exists>lrows orows.
     list_all2 (\<lambda>e kr. fst kr = external_id mapping ''loyverse'' (fst e) \<and>
                  loyverse_record (fst kr) (fst e) (snd e) = Inr (snd kr)) menu_items lrows \<and>
     list_all2 (\<lambda>e kr. fst kr = external_id mapping ''odoo'' (fst e) \<and>
                  odoo_record (fst kr) (fst e) (snd e) = Inr (snd kr)) menu_items orows \<and>
     loyverse pos = set_items [] lrows \<and> odoo pos = set_items [] orows"
proof -
  from assms have "convert_loop mapping \<lparr>loyverse = [], odoo = []\<rparr> menu_items = Inr pos"
    by (simp add: convert_to_pos_format_def)
  from convert_loop_set_items [OF this] obtain lrows orows where
    "list_all2 (loyverse_row mapping) menu_items lrows" and
    "list_all2 (odoo_row mapping) menu_items orows" and
    "loyverse pos = set_items [] lrows" and "odoo pos = set_items [] orows"
    by auto
  with loyverse_rows_external odoo_rows_external show ?thesis by blast
qed

lemma record_fields_all:
  "\<forall>k slug item_data r. loyverse_record k slug item_data = Inr r \<longrightarrow>
     map_of r ''sku'' = Some k \<and> map_of r ''hugo_slug'' = Some (YStr slug)"
  "\<forall>k slug item_data r. odoo_record k slug item_data = Inr r \<longrightarrow>
     map_of r ''default_code'' = Some k \<and> map_of r ''hugo_slug'' = Some (YStr slug)"
  using loyverse_record_fields odoo_record_fields by blast+

lemma table_records:
  assumes rows: "list_all2 (\<lambda>e kr. fst kr = ident (fst e) \<and>
                    record (fst kr) (fst e) (snd e) = Inr (snd kr)) menu_items rows"
    and fields: "\<forall>k slug item_data r. record k slug item_data = Inr r \<longrightarrow>
                   map_of r field = Some k \<and> map_of r ''hugo_slug'' = Some (YStr slug)"
  shows "\<forall>kr \<in> set (set_items [] rows). \<exists>e \<in> set menu_items.
           map_of (snd kr) ''hugo_slug'' = Some (YStr (fst e)) \<and>
           map_of (snd kr) field = Some (ident (fst e)) \<and> same_key (fst kr) (ident (fst e))"
    and "\<forall>e \<in> set menu_items. \<exists>lrec v.
           py_lookup (set_items [] rows) (ident (fst e)) = Some lrec \<and>
           map_of lrec field = Some v \<and> same_key v (ident (fst e))"
proof -
  let ?t = "set_items [] rows"
  show 1: "\<forall>kr \<in> set ?t. \<exists>e \<in> set menu_items.
           map_of (snd kr) ''hugo_slug'' = Some (YStr (fst e)) \<and>
           map_of (snd kr) field = Some (ident (fst e)) \<and> same_key (fst kr) (ident (fst e))"
  proof
    fix kr assume "kr \<in> set ?t"
    from set_items_origin [OF this] obtain r where r: "r \<in> set rows"
      and s: "same_key (fst kr) (fst r)" and v: "snd kr = snd r" by auto
    from list_all2_set2 [OF rows r] obtain e where e: "e \<in> set menu_items"
      and f: "fst r = ident (fst e)" and g: "record (fst r) (fst e) (snd e) = Inr (snd r)"
      by blast
    from fields [rule_format, OF g] have "map_of (snd r) field = Some (fst r)"
      and "map_of (snd r) ''hugo_slug'' = Some (YStr (fst e))" by simp_all
    with s v f e show "\<exists>e \<in> set menu_items.
           map_of (snd kr) ''hugo_slug'' = Some (YStr (fst e)) \<and>
           map_of (snd kr) field = Some (ident (fst e)) \<and> same_key (fst kr) (ident (fst e))"
      by (intro bexI [where x = e]) simp_all
  qed
  show "\<forall>e \<in> set menu_items. \<exists>lrec v.
           py_lookup ?t (ident (fst e)) = Some lrec \<and>
           map_of lrec field = Some v \<and> same_key v (ident (fst e))"
  proof
    fix e assume e: "e \<in> set menu_items"
    from list_all2_set1 [OF rows e] obtain r where r: "r \<in> set rows" and f: "fst r = ident (fst e)"
      by blast
    from set_items_covers [OF r, of "[]"] f have "\<exists>kr \<in> set ?t. same_key (fst kr) (ident (fst e))"
      by simp
    from py_lookup_Some [OF this] obtain kr where kr: "kr \<in> set ?t"
      and s: "same_key (fst kr) (ident (fst e))" and l: "py_lookup ?t (ident (fst e)) = Some (snd kr)"
      by blast
    from 1 kr have "\<exists>e' \<in> set menu_items.
           map_of (snd kr) ''hugo_slug'' = Some (YStr (fst e')) \<and>
           map_of (snd kr) field = Some (ident (fst e')) \<and> same_key (fst kr) (ident (fst e'))"
      by (rule bspec)
    then obtain e' where m: "map_of (snd kr) field = Some (ident (fst e'))"
      and s': "same_key (fst kr) (ident (fst e'))" by auto
    from same_key_trans [OF same_key_sym [OF s'] s]
    have "same_key (ident (fst e')) (ident (fst e))" .
    with l m show "\<exists>lrec v. py_lookup ?t (ident (fst e)) = Some lrec \<and>
           map_of lrec field = Some v \<and> same_key v (ident (fst e))"
      by blast
  qed
qed

lemmas convert_defs = convert_to_pos_format_def convert_item_def loyverse_record_def odoo_record_def
  and_then_def py_index_def py_get_def pos_id_def system_items_def dict_get_def set_item_def
  same_key_def Let_def

lemmas example_defs = two_items_def tuna_roll_def tuna_roll_lunch_def colliding_mapping_def
  example_mapping_def

text \<open>
  C4, as stated, fails: when the mapping file gives two items the same Loyverse
  identifier, the second record replaces the first, and the Loyverse table has one
  record for two items. And when the \<^verbatim>\<open>items\<close> level of the loaded mapping is not a
  dictionary, the transformer raises \<^verbatim>\<open>AttributeError\<close> for items that are not mapped.
\<close>

theorem colliding_ids_drop_record:
  "convert_to_pos_format colliding_mapping two_items = Inr colliding_result
   \<and> \<not> one_record_per_item two_items colliding_result
   \<and> convert_to_pos_format null_items_mapping two_items = Inl AttributeError"
  by (simp add: convert_defs example_defs null_items_mapping_def colliding_result_def
        lunch_loyverse_record_def one_record_per_item_def)

text \<open>
  C4, amended. Whenever the transformer returns, each system's table holds exactly one
  record for every external identifier of an input item and no other record: the
  record of the last item with that identifier, so that a later item's record replaces
  an earlier one's under the same identifier; when the identifiers of the items are
  pairwise distinct in a system, that system's table has exactly one record per input
  item, in the order of the items. For validated items the transformer raises no error,
  mapped or not, provided that the chain of \<^verbatim>\<open>get\<close> calls on the loaded mapping yields a
  dictionary for both systems and that no item's identifier is a list or a dictionary.
\<close>

theorem convert_one_record_per_item:
  "(convert_to_pos_format mapping menu_items = Inr pos \<longrightarrow>
      holds_records (external_id mapping ''loyverse'') loyverse_record menu_items (loyverse pos) \<and>
      holds_records (external_id mapping ''odoo'') odoo_record menu_items (odoo pos))
   \<and> ((\<forall>(slug, item_data) \<in> set menu_items.
          menu_item_fields item_data \<and>
          hashable (external_id mapping ''loyverse'' slug) \<and>
          hashable (external_id mapping ''odoo'' slug)) \<and>
       mapping_shape_ok mapping ''loyverse'' \<and> mapping_shape_ok mapping ''odoo'' \<longrightarrow>
      (\<exists>result. convert_to_pos_format mapping menu_items = Inr result))"
proof (intro conjI impI)
  assume c: "convert_to_pos_format mapping menu_items = Inr pos"
  from convert_tables [OF c] obtain lrows orows where
    l: "list_all2 (\<lambda>e kr. fst kr = external_id mapping ''loyverse'' (fst e) \<and>
                  loyverse_record (fst kr) (fst e) (snd e) = Inr (snd kr)) menu_items lrows" and
    od: "list_all2 (\<lambda>e kr. fst kr = external_id mapping ''odoo'' (fst e) \<and>
                  odoo_record (fst kr) (fst e) (snd e) = Inr (snd kr)) menu_items orows" and
    lt: "loyverse pos = set_items [] lrows" and ot: "odoo pos = set_items [] orows"
    by blast
  show "holds_records (external_id mapping ''loyverse'') loyverse_record menu_items (loyverse pos)"
    unfolding lt by (rule holds_records_set_items [OF l])
  show "holds_records (external_id mapping ''odoo'') odoo_record menu_items (odoo pos)"
    unfolding ot by (rule holds_records_set_items [OF od])
next
  assume a: "(\<forall>(slug, item_data) \<in> set menu_items.
          menu_item_fields item_data \<and>
          hashable (external_id mapping ''loyverse'' slug) \<and>
          hashable (external_id mapping ''odoo'' slug)) \<and>
       mapping_shape_ok mapping ''loyverse'' \<and> mapping_shape_ok mapping ''odoo''"
  then have "\<forall>e \<in> set menu_items. menu_item_fields (snd e) \<and>
             hashable (external_id mapping ''loyverse'' (fst e)) \<and>
             hashable (external_id mapping ''odoo'' (fst e))"
    by auto
  from convert_loop_total [OF this] a
  show "\<exists>result. convert_to_pos_format mapping menu_items = Inr result"
    by (simp add: convert_to_pos_format_def)
qed

lemma two_items_ids:
  "external_id colliding_mapping ''loyverse'' ''tuna-roll'' = YStr ''LV-100''"
  "external_id colliding_mapping ''loyverse'' ''tuna-roll-lunch'' = YStr ''LV-100''"
  "external_id colliding_mapping ''odoo'' ''tuna-roll'' = YStr ''omg-sushi-tuna-roll''"
  "external_id colliding_mapping ''odoo'' ''tuna-roll-lunch'' = YStr ''omg-sushi-tuna-roll-lunch''"
  "external_id example_mapping ''loyverse'' ''tuna-roll'' = YStr ''LV-100''"
  "external_id example_mapping ''loyverse'' ''tuna-roll-lunch'' = YStr ''omg-sushi-tuna-roll-lunch''"
  "external_id example_mapping ''odoo'' ''tuna-roll'' = YStr ''omg-sushi-tuna-roll''"
  "external_id example_mapping ''odoo'' ''tuna-roll-lunch'' = YStr ''omg-sushi-tuna-roll-lunch''"
  by (simp_all add: external_id_def explicit_entry_def colliding_mapping_def example_mapping_def)

lemma example_shapes:
  "mapping_shape_ok colliding_mapping ''loyverse''" "mapping_shape_ok colliding_mapping ''odoo''"
  "mapping_shape_ok example_mapping ''loyverse''" "mapping_shape_ok example_mapping ''odoo''"
  by (simp_all add: mapping_shape_ok_def items_level_def system_items_def dict_get_def and_then_def
        colliding_mapping_def example_mapping_def)

lemma two_items_fields: "menu_item_fields tuna_roll" "menu_item_fields tuna_roll_lunch"
  by (simp_all add: tuna_roll_def tuna_roll_lunch_def menu_item_fields_def)

theorem convert_one_record_per_item_witness:
  "\<exists>pos. convert_to_pos_format colliding_mapping two_items = Inr pos \<and>
     (\<exists>kr \<in> set (loyverse pos). fst kr = YStr ''LV-100'' \<and> snd kr = lunch_loyverse_record) \<and>
     map fst (odoo pos) = [YStr ''omg-sushi-tuna-roll'', YStr ''omg-sushi-tuna-roll-lunch'']"
proof -
  have h: "(\<forall>(slug, item_data) \<in> set two_items.
          menu_item_fields item_data \<and>
          hashable (external_id colliding_mapping ''loyverse'' slug) \<and>
          hashable (external_id colliding_mapping ''odoo'' slug)) \<and>
       mapping_shape_ok colliding_mapping ''loyverse'' \<and> mapping_shape_ok colliding_mapping ''odoo''"
    by (simp add: two_items_def two_items_ids example_shapes two_items_fields)
  from convert_one_record_per_item [of colliding_mapping two_items] h
  obtain pos where c: "convert_to_pos_format colliding_mapping two_items = Inr pos" by blast
  from convert_one_record_per_item [of colliding_mapping two_items pos] c have
    hl: "holds_records (external_id colliding_mapping ''loyverse'') loyverse_record two_items (loyverse pos)"
    and ho: "holds_records (external_id colliding_mapping ''odoo'') odoo_record two_items (odoo pos)"
    by blast+
  have "two_items = [(''tuna-roll'', tuna_roll)] @ (''tuna-roll-lunch'', tuna_roll_lunch) # []
          \<and> (\<forall>x \<in> set []. \<not> same_key (external_id colliding_mapping ''loyverse'' (fst x))
                 (external_id colliding_mapping ''loyverse'' (fst (''tuna-roll-lunch'', tuna_roll_lunch))))"
    by (simp add: two_items_def)
  with hl have "\<exists>kr \<in> set (loyverse pos).
       same_key (fst kr) (external_id colliding_mapping ''loyverse''
                    (fst (''tuna-roll-lunch'', tuna_roll_lunch))) \<and>
       loyverse_record (external_id colliding_mapping ''loyverse''
                    (fst (''tuna-roll-lunch'', tuna_roll_lunch)))
         (fst (''tuna-roll-lunch'', tuna_roll_lunch)) (snd (''tuna-roll-lunch'', tuna_roll_lunch))
         = Inr (snd kr)"
    unfolding holds_records_def by blast
  then have 1: "\<exists>kr \<in> set (loyverse pos). fst kr = YStr ''LV-100'' \<and> snd kr = lunch_loyverse_record"
    by (auto simp: two_items_ids loyverse_record_def and_then_def py_index_def py_get_def
          tuna_roll_lunch_def lunch_loyverse_record_def)
  have "dict_ok (map (\<lambda>e. (external_id colliding_mapping ''odoo'' (fst e), snd e)) two_items)"
    by (simp add: two_items_def two_items_ids)
  with ho have "list_all2 (\<lambda>e kr. fst kr = external_id colliding_mapping ''odoo'' (fst e) \<and>
                      odoo_record (fst kr) (fst e) (snd e) = Inr (snd kr)) two_items (odoo pos)"
    unfolding holds_records_def by blast
  then have 2: "map fst (odoo pos) = [YStr ''omg-sushi-tuna-roll'', YStr ''omg-sushi-tuna-roll-lunch'']"
    by (auto simp: two_items_def two_items_ids list_all2_Cons1)
  from c 1 2 show ?thesis by (intro exI [where x = pos] conjI)
qed

lemma convert_item_idents:
  assumes "convert_to_pos_format mapping menu_items = Inr pos" and "e \<in> set menu_items"
  shows "item_ident mapping ''loyverse'' (fst e) = Inr (external_id mapping ''loyverse'' (fst e))"
    and "item_ident mapping ''odoo'' (fst e) = Inr (external_id mapping ''odoo'' (fst e))"
proof -
  from assms(1) have "convert_loop mapping \<lparr>loyverse = [], odoo = []\<rparr> menu_items = Inr pos"
    by (simp add: convert_to_pos_format_def)
  from convert_loop_set_items [OF this] obtain lrows orows where
    l: "list_all2 (loyverse_row mapping) menu_items lrows" and
    od: "list_all2 (odoo_row mapping) menu_items orows"
    by auto
  from list_all2_set1 [OF l assms(2)] obtain lkr where
    "item_ident mapping ''loyverse'' (fst e) = Inr (fst lkr)"
    by (auto simp: loyverse_row_def)
  with item_ident_external [OF this]
  show "item_ident mapping ''loyverse'' (fst e) = Inr (external_id mapping ''loyverse'' (fst e))"
    by simp
  from list_all2_set1 [OF od assms(2)] obtain okr where
    "item_ident mapping ''odoo'' (fst e) = Inr (fst okr)"
    by (auto simp: odoo_row_def)
  with item_ident_external [OF this]
  show "item_ident mapping ''odoo'' (fst e) = Inr (external_id mapping ''odoo'' (fst e))"
    by simp
qed

lemma two_items_convert:
  "\<exists>pos. convert_to_pos_format example_mapping two_items = Inr pos"
proof -
  have "\<forall>e \<in> set two_items. menu_item_fields (snd e) \<and>
             hashable (external_id example_mapping ''loyverse'' (fst e)) \<and>
             hashable (external_id example_mapping ''odoo'' (fst e))"
    by (simp add: two_items_def two_items_ids two_items_fields)
  from convert_loop_total [OF this example_shapes(3,4)] show ?thesis
    by (simp add: convert_to_pos_format_def)
qed

lemma example_entries:
  "explicit_entry example_mapping ''loyverse'' ''tuna-roll'' = Some (YStr ''LV-100'')"
  "explicit_entry example_mapping ''loyverse'' ''tuna-roll-lunch'' = None"
  "explicit_entry example_mapping ''odoo'' ''tuna-roll'' = None"
  "explicit_entry example_mapping ''odoo'' ''tuna-roll-lunch'' = None"
  by (simp_all add: explicit_entry_def example_mapping_def)

text \<open>
  C3: for every item and each of the two systems, the table has a record under the
  item's external identifier, and the record carries that identifier (\<^verbatim>\<open>sku\<close>,
  \<^verbatim>\<open>default_code\<close>); every record of a table belongs to an item by its \<^verbatim>\<open>hugo_slug\<close>,
  carries that item's identifier and is stored under it. The identifier is the mapping
  entry for that system and slug when there is one, and \<^verbatim>\<open>omg-sushi-\<close> followed by the
  slug otherwise. Identifiers are compared as Python compares dictionary keys, which
  for strings is equality (\<open>same_key_YStr\<close>).
\<close>

theorem external_id_mapping_or_fallback:
  assumes "convert_to_pos_format mapping menu_items = Inr pos"
  shows "(\<forall>(slug, item_data) \<in> set menu_items.
           (\<exists>lrec v. py_lookup (loyverse pos)
                        (case explicit_entry mapping ''loyverse'' slug of
                           Some ident \<Rightarrow> ident | None \<Rightarrow> YStr (''omg-sushi-'' @ slug)) = Some lrec \<and>
                      map_of lrec ''sku'' = Some v \<and>
                      same_key v (case explicit_entry mapping ''loyverse'' slug of
                                    Some ident \<Rightarrow> ident | None \<Rightarrow> YStr (''omg-sushi-'' @ slug))) \<and>
           (\<exists>orec v. py_lookup (odoo pos)
                        (case explicit_entry mapping ''odoo'' slug of
                           Some ident \<Rightarrow> ident | None \<Rightarrow> YStr (''omg-sushi-'' @ slug)) = Some orec \<and>
                      map_of orec ''default_code'' = Some v \<and>
                      same_key v (case explicit_entry mapping ''odoo'' slug of
                                    Some ident \<Rightarrow> ident | None \<Rightarrow> YStr (''omg-sushi-'' @ slug))))
       \<and> (\<forall>(k, r) \<in> set (loyverse pos). \<exists>(slug, item_data) \<in> set menu_items.
             map_of r ''hugo_slug'' = Some (YStr slug) \<and>
             map_of r ''sku'' = Some (case explicit_entry mapping ''loyverse'' slug of
                                       Some ident \<Rightarrow> ident | None \<Rightarrow> YStr (''omg-sushi-'' @ slug)) \<and>
             same_key k (case explicit_entry mapping ''loyverse'' slug of
                           Some ident \<Rightarrow> ident | None \<Rightarrow> YStr (''omg-sushi-'' @ slug)))
       \<and> (\<forall>(k, r) \<in> set (odoo pos). \<exists>(slug, item_data) \<in> set menu_items.
             map_of r ''hugo_slug'' = Some (YStr slug) \<and>
             map_of r ''default_code'' = Some (case explicit_entry mapping ''odoo'' slug of
                                       Some ident \<Rightarrow> ident | None \<Rightarrow> YStr (''omg-sushi-'' @ slug)) \<and>
             same_key k (case explicit_entry mapping ''odoo'' slug of
                           Some ident \<Rightarrow> ident | None \<Rightarrow> YStr (''omg-sushi-'' @ slug)))"
proof -
  from convert_tables [OF assms] obtain lrows orows where
    l: "list_all2 (\<lambda>e kr. fst kr = external_id mapping ''loyverse'' (fst e) \<and>
                  loyverse_record (fst kr) (fst e) (snd e) = Inr (snd kr)) menu_items lrows" and
    od: "list_all2 (\<lambda>e kr. fst kr = external_id mapping ''odoo'' (fst e) \<and>
                  odoo_record (fst kr) (fst e) (snd e) = Inr (snd kr)) menu_items orows" and
    lt: "loyverse pos = set_items [] lrows" and ot: "odoo pos = set_items [] orows"
    by blast
  note tl = table_records [OF l record_fields_all(1), folded lt]
  note to = table_records [OF od record_fields_all(2), folded ot]
  have a: "\<forall>e \<in> set menu_items.
           (\<exists>lrec v. py_lookup (loyverse pos) (external_id mapping ''loyverse'' (fst e)) = Some lrec \<and>
                      map_of lrec ''sku'' = Some v \<and>
                      same_key v (external_id mapping ''loyverse'' (fst e))) \<and>
           (\<exists>orec v. py_lookup (odoo pos) (external_id mapping ''odoo'' (fst e)) = Some orec \<and>
                      map_of orec ''default_code'' = Some v \<and>
                      same_key v (external_id mapping ''odoo'' (fst e)))"
    using tl(2) to(2) by (intro ballI conjI) (erule bspec, assumption)+
  from a tl(1) to(1) show ?thesis
    unfolding external_id_def case_prod_beta by (intro conjI)
qed

theorem external_id_mapping_or_fallback_witness:
  "\<exists>pos. convert_to_pos_format example_mapping two_items = Inr pos \<and>
     (\<exists>lrec. py_lookup (loyverse pos) (YStr ''LV-100'') = Some lrec \<and>
             map_of lrec ''sku'' = Some (YStr ''LV-100'')) \<and>
     (\<exists>lrec. py_lookup (loyverse pos) (YStr ''omg-sushi-tuna-roll-lunch'') = Some lrec \<and>
             map_of lrec ''sku'' = Some (YStr ''omg-sushi-tuna-roll-lunch'')) \<and>
     (\<exists>orec. py_lookup (odoo pos) (YStr ''omg-sushi-tuna-roll'') = Some orec \<and>
             map_of orec ''default_code'' = Some (YStr ''omg-sushi-tuna-roll''))"
proof -
  from two_items_convert obtain pos where
    c: "convert_to_pos_format example_mapping two_items = Inr pos" by blast
  from external_id_mapping_or_fallback [OF c] c show ?thesis
    by (simp add: example_entries two_items_def)
qed

text \<open>
  C10: for an item whose slug has no mapping entry in either system, the identifiers
  that the transformer computes for its Loyverse record and for its Odoo record are
  equal: both are \<^verbatim>\<open>omg-sushi-\<close> followed by the slug, both tables hold a record under
  it, and the records carry it.
\<close>

theorem fallback_ids_equal:
  assumes "convert_to_pos_format mapping menu_items = Inr pos"
    and "(slug, item_data) \<in> set menu_items"
    and "explicit_entry mapping ''loyverse'' slug = None"
    and "explicit_entry mapping ''odoo'' slug = None"
  shows "item_ident mapping ''loyverse'' slug = Inr (YStr (''omg-sushi-'' @ slug)) \<and>
         item_ident mapping ''odoo'' slug = item_ident mapping ''loyverse'' slug \<and>
         (\<exists>lrec orec.
            py_lookup (loyverse pos) (YStr (''omg-sushi-'' @ slug)) = Some lrec \<and>
            py_lookup (odoo pos) (YStr (''omg-sushi-'' @ slug)) = Some orec \<and>
            map_of lrec ''sku'' = Some (YStr (''omg-sushi-'' @ slug)) \<and>
            map_of orec ''default_code'' = Some (YStr (''omg-sushi-'' @ slug)))"
proof -
  have el: "external_id mapping ''loyverse'' slug = YStr (''omg-sushi-'' @ slug)"
    and eo: "external_id mapping ''odoo'' slug = YStr (''omg-sushi-'' @ slug)"
    unfolding external_id_def assms(3,4) by simp_all
  from convert_item_idents [OF assms(1,2)] have
    il: "item_ident mapping ''loyverse'' slug = Inr (YStr (''omg-sushi-'' @ slug))" and
    io: "item_ident mapping ''odoo'' slug = Inr (YStr (''omg-sushi-'' @ slug))"
    unfolding fst_conv el eo by simp_all
  from convert_tables [OF assms(1)] obtain lrows orows where
    l: "list_all2 (\<lambda>e kr. fst kr = external_id mapping ''loyverse'' (fst e) \<and>
                  loyverse_record (fst kr) (fst e) (snd e) = Inr (snd kr)) menu_items lrows" and
    od: "list_all2 (\<lambda>e kr. fst kr = external_id mapping ''odoo'' (fst e) \<and>
                  odoo_record (fst kr) (fst e) (snd e) = Inr (snd kr)) menu_items orows" and
    lt: "loyverse pos = set_items [] lrows" and ot: "odoo pos = set_items [] orows"
    by blast
  from table_records(2) [OF l record_fields_all(1), folded lt] assms(2)
  have "\<exists>lrec v. py_lookup (loyverse pos) (external_id mapping ''loyverse'' (fst (slug, item_data))) = Some lrec \<and>
          map_of lrec ''sku'' = Some v \<and>
          same_key v (external_id mapping ''loyverse'' (fst (slug, item_data)))"
    by (rule bspec)
  then obtain lrec where
    1: "py_lookup (loyverse pos) (YStr (''omg-sushi-'' @ slug)) = Some lrec" and
    2: "map_of lrec ''sku'' = Some (YStr (''omg-sushi-'' @ slug))"
    unfolding fst_conv el by auto
  from table_records(2) [OF od record_fields_all(2), folded ot] assms(2)
  have "\<exists>orec v. py_lookup (odoo pos) (external_id mapping ''odoo'' (fst (slug, item_data))) = Some orec \<and>
          map_of orec ''default_code'' = Some v \<and>
          same_key v (external_id mapping ''odoo'' (fst (slug, item_data)))"
    by (rule bspec)
  then obtain orec where
    3: "py_lookup (odoo pos) (YStr (''omg-sushi-'' @ slug)) = Some orec" and
    4: "map_of orec ''default_code'' = Some (YStr (''omg-sushi-'' @ slug))"
    unfolding fst_conv eo by auto
  from il io 1 2 3 4 show ?thesis by simp
qed

theorem fallback_ids_equal_witness:
  "\<exists>pos. convert_to_pos_format example_mapping two_items = Inr pos \<and>
     (\<exists>lrec orec.
        py_lookup (loyverse pos) (YStr ''omg-sushi-tuna-roll-lunch'') = Some lrec \<and>
        py_lookup (odoo pos) (YStr ''omg-sushi-tuna-roll-lunch'') = Some orec \<and>
        map_of lrec ''sku'' = Some (YStr ''omg-sushi-tuna-roll-lunch'') \<and>
        map_of orec ''default_code'' = Some (YStr ''omg-sushi-tuna-roll-lunch''))"
proof -
  from two_items_convert obtain pos where
    c: "convert_to_pos_format example_mapping two_items = Inr pos" by blast
  have m: "(''tuna-roll-lunch'', tuna_roll_lunch) \<in> set two_items" by (simp add: two_items_def)
  from fallback_ids_equal [OF c m example_entries(2) example_entries(4)] c show ?thesis by simp
qed

section \<open>Properties of the run\<close>

lemma load_pos_mapping_ok:
  "\<forall>err. mapping_file e \<noteq> Some (Inl err) \<Longrightarrow>
     \<exists>self1 w1. load_pos_mapping e self w = Inr (self1, w1) \<and> content_dir self1 = content_dir self \<and>
        written w1 = written w"
  by (auto simp: load_pos_mapping_def log_msg_def split: option.splits sum.splits)

lemma load_menu_data_ok:
  "\<forall>err. menu_file e \<noteq> Some (Inl err) \<Longrightarrow>
     \<exists>self1 w1. load_menu_data e self w = Inr (self1, w1) \<and> content_dir self1 = content_dir self \<and>
        written w1 = written w"
  by (auto simp: load_menu_data_def log_msg_def split: option.splits sum.splits)

text \<open>
  C6: when loading the configuration raises nothing and the scan yields no valid menu
  item, the run returns without an exception, writes no file, and the last message it
  logs is the warning that no menu items were found.
\<close>

theorem empty_scan_halts:
  assumes "\<forall>err. mapping_file e \<noteq> Some (Inl err)"
    and "\<forall>err. menu_file e \<noteq> Some (Inl err)"
    and "fst (scan_menu_items repr yaml_safe_load (content_dir self) (content_files e)) = []"
  shows "\<exists>self' w'. run_conversion repr yaml_safe_load e self w = Inr (self', w') \<and>
           written w' = written w \<and> last (logged w') = NoMenuItems"
proof -
  from load_pos_mapping_ok [OF assms(1)] obtain self1 w1 where
    l1: "load_pos_mapping e self (log_msg Starting w) = Inr (self1, w1)" and
    c1: "content_dir self1 = content_dir self" and
    f1: "written w1 = written (log_msg Starting w)"
    by blast
  from load_menu_data_ok [OF assms(2)] obtain self2 w2 where
    l2: "load_menu_data e self1 w1 = Inr (self2, w2)" and
    c2: "content_dir self2 = content_dir self1" and
    f2: "written w2 = written w1"
    by blast
  obtain scan_log where
    s: "scan_menu_items repr yaml_safe_load (content_dir self2) (content_files e) = ([], scan_log)"
    using assms(3) c1 c2
    by (cases "scan_menu_items repr yaml_safe_load (content_dir self) (content_files e)") simp
  have "run_conversion repr yaml_safe_load e self w
          = Inr (self2, log_msg NoMenuItems (w2\<lparr>logged := logged w2 @ scan_log\<rparr>))"
    by (simp add: run_conversion_def and_then_def l1 l2 s)
  moreover have "written (log_msg NoMenuItems (w2\<lparr>logged := logged w2 @ scan_log\<rparr>)) = written w"
    by (simp add: log_msg_def f1 f2)
  moreover have "last (logged (log_msg NoMenuItems (w2\<lparr>logged := logged w2 @ scan_log\<rparr>))) = NoMenuItems"
    by (simp add: log_msg_def)
  ultimately show ?thesis by blast
qed

theorem empty_scan_halts_witness:
  "\<exists>self' w'. run_conversion no_repr example_loader site_without_items fresh_converter fresh_world
                 = Inr (self', w') \<and>
           written w' = [] \<and> last (logged w') = NoMenuItems"
proof -
  have "fst (scan_menu_items no_repr example_loader (content_dir fresh_converter)
               (content_files site_without_items)) = []"
    by (simp add: scan_menu_items_def scan_file_def site_without_items_def fresh_converter_def
          parse_menu_item_def is_delimiter_def starts_with_def path_name_def)
  with empty_scan_halts [of site_without_items no_repr example_loader fresh_converter fresh_world]
  show ?thesis
    by (simp add: site_without_items_def fresh_world_def)
qed

section \<open>Scanned items are validated items\<close>

text \<open>
  Every item that the scanner collects went through the parser and the validator, so it
  has the keys that the transformer reads: the hypothesis of the transformer's
  properties holds for the items that a run hands to it.
\<close>

lemma set_update_subset: "set (AList.update k v al) \<subseteq> insert (k, v) (set al)"
  by (induction al) auto

lemma validate_Inr_fields:
  "validate_menu_item repr d = Inr d' \<Longrightarrow>
     map_of d' ''title'' \<noteq> None \<and> map_of d' ''price_numeric'' \<noteq> None"
  by (auto simp: validate_menu_item_def first_missing_required field_missing_def update_conv'
           split: option.splits if_splits)

lemma parse_Some_validate:
  "parse_menu_item repr yaml_safe_load base_dir file_path content = Inr (lg, Some item_data) \<Longrightarrow>
     \<exists>d. validate_menu_item repr d = Inr item_data"
  by (auto simp: parse_menu_item_def Let_def simp del: AList.update.simps
           split: if_splits prod.splits sum.splits yval.splits)

lemma parse_Some_menu_item:
  assumes "parse_menu_item repr yaml_safe_load base_dir file_path content = Inr (lg, Some item_data)"
  shows "menu_item_fields item_data"
proof -
  from parse_Some_validate [OF assms] obtain d where "validate_menu_item repr d = Inr item_data"
    by blast
  from validate_Inr_fields [OF this] parse_Some_fields [OF assms]
  show ?thesis by (auto simp: menu_item_fields_def)
qed

lemma scan_file_validated:
  assumes "\<forall>x \<in> set (fst st). menu_item_fields (snd x)"
  shows "\<forall>x \<in> set (fst (scan_file repr yaml_safe_load base_dir st entry)). menu_item_fields (snd x)"
proof -
  obtain menu lg where st: "st = (menu, lg)" by (cases st)
  obtain cfile rd where en: "entry = (cfile, rd)" by (cases entry)
  have upd: "\<And>slug item_data a b. menu_item_fields item_data \<Longrightarrow>
               (a, b) \<in> set (AList.update slug item_data menu) \<Longrightarrow> menu_item_fields b"
  proof -
    fix slug item_data a b
    assume i: "menu_item_fields item_data" and m: "(a, b) \<in> set (AList.update slug item_data menu)"
    from m set_update_subset [of slug item_data menu]
    have "(a, b) = (slug, item_data) \<or> (a, b) \<in> set menu" by auto
    with i assms st show "menu_item_fields b" by auto
  qed
  show ?thesis
    using assms
    by (auto simp: scan_file_def st en simp del: AList.update.simps
             split: sum.splits option.splits yval.splits prod.splits if_splits
             dest: upd [OF parse_Some_menu_item])
qed

lemma scan_fold_validated:
  "\<forall>x \<in> set (fst st). menu_item_fields (snd x) \<Longrightarrow>
     \<forall>x \<in> set (fst (foldl (scan_file repr yaml_safe_load base_dir) st files)). menu_item_fields (snd x)"
proof (induction files arbitrary: st)
  case Nil
  then show ?case by simp
next
  case (Cons f fs)
  from scan_file_validated [OF Cons.prems]
  have "\<forall>x \<in> set (fst (scan_file repr yaml_safe_load base_dir st f)). menu_item_fields (snd x)" .
  from Cons.IH [OF this] show ?case by simp
qed

lemma scan_menu_items_validated:
  "\<forall>(slug, item_data) \<in> set (fst (scan_menu_items repr yaml_safe_load base_dir files)).
     menu_item_fields item_data"
proof -
  have "\<forall>x \<in> set (fst (foldl (scan_file repr yaml_safe_load base_dir) ([], []) files)).
          menu_item_fields (snd x)"
    by (rule scan_fold_validated) simp
  then show ?thesis
    by (fastforce simp: scan_menu_items_def split: prod.splits)
qed


end
